theory Spec2Isabelle
  imports Complex_Main "HOL-Library.AList"
begin

section \<open>Cache manager (src/core/cache-manager.js)\<close>

text \<open>
  Conventions of the embedding.
  \<^item> \<open>Date.now()\<close> is an explicit argument \<open>now\<close> (milliseconds, an integer); the
    clock reads made inside one operation are taken at one instant.
  \<^item> The JavaScript \<open>Map\<close> held in \<open>this.cache\<close> is an association list in insertion
    order: \<open>Map.set\<close> is \<open>AList.update\<close> (overwrite in place, or append),
    \<open>Map.delete\<close> is \<open>AList.delete\<close>, \<open>Map.get\<close> is \<open>map_of\<close>, \<open>Map.size\<close> is
    \<open>length\<close>. A \<open>Map\<close> never holds a key twice, which is the well-formedness
    condition \<open>distinct (map fst (cache s))\<close>.
  \<^item> Cached values are strings (the pipeline stores response texts).
  \<^item> The file \<open>data/cache.json\<close> is the field \<open>cacheFile\<close> (\<open>None\<close>: no file);
    \<open>fsWritable\<close> says whether \<open>fs.writeFileSync\<close> succeeds. A failed write is caught
    by \<open>save\<close>, which logs and returns false. Only snapshots that \<open>save\<close> wrote are
    modelled as file contents.
  \<^item> Logging is not part of the state.
\<close>

record CacheItem =
  ci_key :: string
  ci_value :: string
  createdAt :: int
  ttl :: int
  ci_hits :: nat

record Stats =
  hits :: nat
  misses :: nat
  sets :: nat
  deletes :: nat
  evictions :: nat

record Snapshot =
  version :: nat
  savedAt :: int
  snap_cache :: "CacheItem list"
  snap_stats :: Stats

record CacheManager =
  enabled :: bool
  maxSize :: int
  defaultTTL :: int
  cache :: "(string \<times> CacheItem) list"
  accessOrder :: "string list"
  persistenceEnabled :: bool
  stats :: Stats
  cacheFile :: "Snapshot option"
  fsWritable :: bool

definition zeroStats :: Stats where
  "zeroStats = \<lparr>hits = 0, misses = 0, sets = 0, deletes = 0, evictions = 0\<rparr>"

text \<open>\<open>new CacheItem(key, value, ttl)\<close>.\<close>

definition newCacheItem :: "int \<Rightarrow> string \<Rightarrow> string \<Rightarrow> int \<Rightarrow> CacheItem" where
  "newCacheItem now k v t =
     \<lparr>ci_key = k, ci_value = v, createdAt = now, ttl = t, ci_hits = 0\<rparr>"

text \<open>\<open>isExpired()\<close>: \<open>Date.now() - this.createdAt > this.ttl\<close>.\<close>

definition isExpired :: "CacheItem \<Rightarrow> int \<Rightarrow> bool" where
  "isExpired item now = (now - createdAt item > ttl item)"

definition touch :: "CacheItem \<Rightarrow> CacheItem" where
  "touch item = item\<lparr>ci_hits := ci_hits item + 1\<rparr>"

text \<open>\<open>save()\<close>: the whole store and the stats, written when the file system allows.\<close>

definition snapshotOf :: "CacheManager \<Rightarrow> int \<Rightarrow> Snapshot" where
  "snapshotOf s now =
     \<lparr>version = 1, savedAt = now,
      snap_cache = map (\<lambda>(k, item). item\<lparr>ci_key := k\<rparr>) (cache s),
      snap_stats = stats s\<rparr>"

definition save :: "CacheManager \<Rightarrow> int \<Rightarrow> bool \<times> CacheManager" where
  "save s now =
     (if fsWritable s then (True, s\<lparr>cacheFile := Some (snapshotOf s now)\<rparr>)
      else (False, s))"

text \<open>\<open>delete(key)\<close>. It does not look at \<open>enabled\<close>.\<close>

definition cache_delete :: "CacheManager \<Rightarrow> int \<Rightarrow> string \<Rightarrow> bool \<times> CacheManager" where
  "cache_delete s now k =
     (if k \<in> fst ` set (cache s) then
        let s1 = s\<lparr>cache := AList.delete k (cache s)\<rparr>;
            s2 = s1\<lparr>accessOrder := filter (\<lambda>k'. k' \<noteq> k) (accessOrder s1)\<rparr>;
            s3 = s2\<lparr>stats := (stats s2)\<lparr>deletes := deletes (stats s2) + 1\<rparr>\<rparr>;
            s4 = (if persistenceEnabled s3 then snd (save s3 now) else s3)
        in (True, s4)
      else (False, s))"

text \<open>\<open>updateAccessOrder(key)\<close>: \<open>indexOf\<close> and \<open>splice\<close> remove the first occurrence.\<close>

definition updateAccessOrder :: "CacheManager \<Rightarrow> string \<Rightarrow> CacheManager" where
  "updateAccessOrder s k = s\<lparr>accessOrder := remove1 k (accessOrder s) @ [k]\<rparr>"

text \<open>\<open>evictLRU()\<close>: \<open>shift()\<close> takes the head of the access order.\<close>

definition evictLRU :: "CacheManager \<Rightarrow> CacheManager" where
  "evictLRU s =
     (case accessOrder s of
        [] \<Rightarrow> s
      | lruKey # rest \<Rightarrow>
          s\<lparr>accessOrder := rest,
            cache := AList.delete lruKey (cache s),
            stats := (stats s)\<lparr>evictions := evictions (stats s) + 1\<rparr>\<rparr>)"

text \<open>\<open>get(key)\<close>: the returned value is \<open>None\<close> for JavaScript's \<open>null\<close>.\<close>

definition countMiss :: "CacheManager \<Rightarrow> CacheManager" where
  "countMiss s = s\<lparr>stats := (stats s)\<lparr>misses := misses (stats s) + 1\<rparr>\<rparr>"

definition cache_get :: "CacheManager \<Rightarrow> int \<Rightarrow> string \<Rightarrow> string option \<times> CacheManager" where
  "cache_get s now k =
     (if \<not> enabled s then (None, s)
      else case map_of (cache s) k of
        None \<Rightarrow> (None, countMiss s)
      | Some item \<Rightarrow>
          if isExpired item now then (None, countMiss (snd (cache_delete s now k)))
          else
            let s1 = updateAccessOrder s k;
                s2 = s1\<lparr>cache := AList.update k (touch item) (cache s1)\<rparr>;
                s3 = s2\<lparr>stats := (stats s2)\<lparr>hits := hits (stats s2) + 1\<rparr>\<rparr>
            in (Some (ci_value item), s3))"

text \<open>
  \<open>x || d\<close> on an optional number takes the default \<open>d\<close> for an absent \<open>x\<close> and for
  \<open>0\<close>. \<open>set(key, value, ttl = null)\<close> uses it as \<open>ttl || this.defaultTTL\<close>;
  \<open>makeRoom\<close> is its capacity check.
\<close>

definition numOr :: "int option \<Rightarrow> int \<Rightarrow> int" where
  "numOr t d = (case t of None \<Rightarrow> d | Some x \<Rightarrow> if x = 0 then d else x)"

definition makeRoom :: "CacheManager \<Rightarrow> string \<Rightarrow> CacheManager" where
  "makeRoom s k =
     (if int (length (cache s)) \<ge> maxSize s \<and> k \<notin> fst ` set (cache s)
      then evictLRU s else s)"

definition cache_set ::
  "CacheManager \<Rightarrow> int \<Rightarrow> string \<Rightarrow> string \<Rightarrow> int option \<Rightarrow> bool \<times> CacheManager" where
  "cache_set s now k v t =
     (if \<not> enabled s then (False, s)
      else
        let s1 = makeRoom s k;
            item = newCacheItem now k v (numOr t (defaultTTL s1));
            s2 = s1\<lparr>cache := AList.update k item (cache s1)\<rparr>;
            s3 = updateAccessOrder s2 k;
            s4 = s3\<lparr>stats := (stats s3)\<lparr>sets := sets (stats s3) + 1\<rparr>\<rparr>;
            s5 = (if persistenceEnabled s4 then snd (save s4 now) else s4)
        in (True, s5))"

definition cache_clear :: "CacheManager \<Rightarrow> int \<Rightarrow> CacheManager" where
  "cache_clear s now =
     (let s1 = s\<lparr>cache := [], accessOrder := [], stats := zeroStats\<rparr>
      in if persistenceEnabled s1 then snd (save s1 now) else s1)"

text \<open>
  \<open>cleanup()\<close>: the loop runs over the entries of the map and deletes the entry it
  is at, so it visits exactly the entries present at the start. The accumulator is the
  pair of the count and the store.
\<close>

fun cleanupLoop ::
  "int \<Rightarrow> (string \<times> CacheItem) list \<Rightarrow> nat \<times> CacheManager \<Rightarrow> nat \<times> CacheManager" where
  "cleanupLoop now [] acc = acc"
| "cleanupLoop now ((k, item) # es) (cleaned, s) =
     (if now - createdAt item > ttl item
      then cleanupLoop now es (cleaned + 1, snd (cache_delete s now k))
      else cleanupLoop now es (cleaned, s))"

definition cleanup :: "CacheManager \<Rightarrow> int \<Rightarrow> nat \<times> CacheManager" where
  "cleanup s now = cleanupLoop now (cache s) (0, s)"

text \<open>
  \<open>load()\<close>: entries with \<open>Date.now() - item.createdAt < item.ttl\<close> are kept, in the
  order of the file; the saved stats replace the current ones.
\<close>

fun loadLoop :: "int \<Rightarrow> CacheItem list \<Rightarrow> CacheManager \<Rightarrow> CacheManager" where
  "loadLoop now [] s = s"
| "loadLoop now (item # items) s =
     (if now - createdAt item < ttl item
      then loadLoop now items
             (s\<lparr>cache := AList.update (ci_key item)
                           (newCacheItem now (ci_key item) (ci_value item) (ttl item)
                              \<lparr>createdAt := createdAt item, ci_hits := ci_hits item\<rparr>)
                           (cache s),
                accessOrder := accessOrder s @ [ci_key item]\<rparr>)
      else loadLoop now items s)"

definition load :: "CacheManager \<Rightarrow> int \<Rightarrow> bool \<times> CacheManager" where
  "load s now =
     (case cacheFile s of
        None \<Rightarrow> (False, s)
      | Some data \<Rightarrow>
          let s1 = s\<lparr>cache := [], accessOrder := []\<rparr>;
              s2 = loadLoop now (snap_cache data) s1
          in (True, s2\<lparr>stats := snap_stats data\<rparr>))"

text \<open>
  The constructor. \<open>options.enabled\<close> defaults to \<open>Config.ENABLE_CACHE\<close>,
  \<open>options.maxSize || Config.CACHE_MAX_SIZE\<close> and \<open>options.ttl || 3600000\<close> take the
  default for an absent or zero option, and persistence is on unless \<open>options.persist\<close>
  is \<open>false\<close>. The file system is what the new process finds. \<open>Config\<close> is the
  static configuration class of config.js, read from the environment at start-up.
\<close>

record CacheOptions =
  opt_enabled :: "bool option"
  opt_maxSize :: "int option"
  opt_ttl :: "int option"
  opt_persist :: "bool option"

record Price =
  price_input :: real
  price_output :: real
  price_name :: string

record Config =
  DEFAULT_MODEL :: string
  DEFAULT_MAX_TOKENS :: nat
  BUDGET_LIMIT :: real
  WARN_THRESHOLD :: real
  ENABLE_CACHE :: bool
  CACHE_MAX_SIZE :: int
  MODEL_PRICES :: "(string \<times> Price) list"

definition initialManager ::
  "Config \<Rightarrow> CacheOptions \<Rightarrow> Snapshot option \<Rightarrow> bool \<Rightarrow> CacheManager" where
  "initialManager cfg opts file writable =
     \<lparr>enabled = (case opt_enabled opts of None \<Rightarrow> ENABLE_CACHE cfg | Some b \<Rightarrow> b),
      maxSize = numOr (opt_maxSize opts) (CACHE_MAX_SIZE cfg),
      defaultTTL = numOr (opt_ttl opts) 3600000,
      cache = [], accessOrder = [],
      persistenceEnabled = (opt_persist opts \<noteq> Some False),
      stats = zeroStats,
      cacheFile = file, fsWritable = writable\<rparr>"

definition newCacheManager ::
  "Config \<Rightarrow> CacheOptions \<Rightarrow> Snapshot option \<Rightarrow> bool \<Rightarrow> int \<Rightarrow> CacheManager" where
  "newCacheManager cfg opts file writable now =
     (let s = initialManager cfg opts file writable
      in if persistenceEnabled s then snd (load s now) else s)"

text \<open>
  A restart: a new process constructs its manager and finds the file the old store
  left. \<open>keptOnLoad\<close> is the test \<open>load\<close> applies to each saved entry.
\<close>

definition restart ::
  "Config \<Rightarrow> CacheOptions \<Rightarrow> CacheManager \<Rightarrow> bool \<Rightarrow> int \<Rightarrow> CacheManager" where
  "restart cfg opts old writable now = newCacheManager cfg opts (cacheFile old) writable now"

definition keptOnLoad :: "int \<Rightarrow> CacheItem \<Rightarrow> bool" where
  "keptOnLoad now item = (now - createdAt item < ttl item)"

text \<open>
  Sequences of operations on one store. Each operation carries the clock reading at
  which it runs. \<open>accessed\<close> lists the key an operation accesses: a \<open>set\<close> on an
  enabled store, and a \<open>get\<close> that hits. \<open>access_log\<close> collects these over a run,
  oldest first; it is not part of the program's state.
\<close>

datatype cache_op =
    Get int string
  | Set int string string "int option"
  | Delete int string
  | Clear int
  | Cleanup int

fun apply_op :: "CacheManager \<Rightarrow> cache_op \<Rightarrow> CacheManager" where
  "apply_op s (Get now k) = snd (cache_get s now k)"
| "apply_op s (Set now k v t) = snd (cache_set s now k v t)"
| "apply_op s (Delete now k) = snd (cache_delete s now k)"
| "apply_op s (Clear now) = cache_clear s now"
| "apply_op s (Cleanup now) = snd (cleanup s now)"

fun accessed :: "CacheManager \<Rightarrow> cache_op \<Rightarrow> string list" where
  "accessed s (Get now k) = (if fst (cache_get s now k) = None then [] else [k])"
| "accessed s (Set now k v t) = (if enabled s then [k] else [])"
| "accessed s _ = []"

fun run :: "CacheManager \<Rightarrow> cache_op list \<Rightarrow> CacheManager" where
  "run s [] = s"
| "run s (x # xs) = run (apply_op s x) xs"

fun access_log :: "CacheManager \<Rightarrow> cache_op list \<Rightarrow> string list" where
  "access_log s [] = []"
| "access_log s (x # xs) = accessed s x @ access_log (apply_op s x) xs"

text \<open>
  The keys of the store in the order of their last access in a log: \<open>remdups\<close> keeps
  the last occurrence of each key.
\<close>

definition byLastAccess :: "CacheManager \<Rightarrow> string list \<Rightarrow> string list" where
  "byLastAccess s accs = filter (\<lambda>k. k \<in> fst ` set (cache s)) (remdups accs)"

text \<open>
  The invariant of the store against a log of accesses: the map holds no key twice,
  every stored key has been accessed, and the access order lists the stored keys by
  their last access, least recent first.
\<close>

definition ordered_inv :: "CacheManager \<Rightarrow> string list \<Rightarrow> bool" where
  "ordered_inv s accs \<longleftrightarrow>
     distinct (map fst (cache s)) \<and> fst ` set (cache s) \<subseteq> set accs \<and>
     accessOrder s = byLastAccess s accs"

section \<open>Token tracker (src/core/token-tracker.js)\<close>

text \<open>
  Amounts of money are JavaScript numbers; they are modelled as exact reals, token
  counts as naturals. \<open>usagePercentage\<close>, a number formatted by \<open>toFixed(2)\<close> for
  the log, is left out of the budget status. Methods return their result paired with
  the tracker as they leave it.
\<close>

datatype request_id = Given string | Generated int

record CallRecord =
  cr_timestamp :: int
  requestId :: request_id
  cr_inputTokens :: nat
  cr_outputTokens :: nat
  cr_totalTokens :: nat
  cr_model :: string
  cost :: real

record TokenTracker =
  totalInputTokens :: nat
  totalOutputTokens :: nat
  totalRequests :: nat
  callHistory :: "CallRecord list"
  budgetLimit :: real
  warnThreshold :: real

record BudgetStatus =
  currentCost :: real
  bs_budgetLimit :: real
  remaining :: real
  isOverBudget :: bool
  isNearLimit :: bool

text \<open>
  \<open>Config.getModelPrice(model)\<close>: \<open>MODEL_PRICES[model] || MODEL_PRICES[DEFAULT_MODEL]\<close>,
  which is \<open>undefined\<close> (\<open>None\<close>) when neither is in the table.
\<close>

definition getModelPrice :: "Config \<Rightarrow> string \<Rightarrow> Price option" where
  "getModelPrice cfg m =
     (case map_of (MODEL_PRICES cfg) m of
        Some p \<Rightarrow> Some p
      | None \<Rightarrow> map_of (MODEL_PRICES cfg) (DEFAULT_MODEL cfg))"

text \<open>
  \<open>calculateSingleCallCost\<close>: reading \<open>price.input\<close> of an undefined price throws a
  TypeError, the result \<open>None\<close>.
\<close>

definition calculateSingleCallCost :: "Config \<Rightarrow> nat \<Rightarrow> nat \<Rightarrow> string \<Rightarrow> real option" where
  "calculateSingleCallCost cfg inTok outTok m =
     (case getModelPrice cfg m of
        None \<Rightarrow> None
      | Some price \<Rightarrow>
          Some ((real inTok / 1000000) * price_input price
                + (real outTok / 1000000) * price_output price))"

text \<open>\<open>getTotalCost()\<close>: \<open>reduce\<close> from the left, starting at 0.\<close>

definition getTotalCost :: "TokenTracker \<Rightarrow> real" where
  "getTotalCost tr = foldl (\<lambda>sum r. sum + cost r) 0 (callHistory tr)"

definition checkBudget :: "TokenTracker \<Rightarrow> BudgetStatus \<times> TokenTracker" where
  "checkBudget tr =
     (let c = getTotalCost tr
      in (\<lparr>currentCost = c,
           bs_budgetLimit = budgetLimit tr,
           remaining = budgetLimit tr - c,
           isOverBudget = (c \<ge> budgetLimit tr),
           isNearLimit = (c \<ge> budgetLimit tr * warnThreshold tr)\<rparr>, tr))"

text \<open>
  \<open>recordCall\<close>: the totals are incremented first; the record is built next, and a
  TypeError from the cost leaves the method there (result \<open>None\<close>). The closing
  \<open>checkBudget()\<close> only logs. \<open>requestId || `req-${Date.now()}`\<close> generates an id
  for an absent or empty one; an absent model is \<open>Config.DEFAULT_MODEL\<close>.
\<close>

definition recordCall ::
  "Config \<Rightarrow> TokenTracker \<Rightarrow> int \<Rightarrow> nat \<Rightarrow> nat \<Rightarrow> string option \<Rightarrow> string option
     \<Rightarrow> CallRecord option \<times> TokenTracker" where
  "recordCall cfg tr now inTok outTok mo rid =
     (let m = (case mo of None \<Rightarrow> DEFAULT_MODEL cfg | Some x \<Rightarrow> x);
          tr1 = tr\<lparr>totalInputTokens := totalInputTokens tr + inTok,
                   totalOutputTokens := totalOutputTokens tr + outTok,
                   totalRequests := totalRequests tr + 1\<rparr>
      in case calculateSingleCallCost cfg inTok outTok m of
           None \<Rightarrow> (None, tr1)
         | Some c \<Rightarrow>
             let r = \<lparr>cr_timestamp = now,
                      requestId = (case rid of None \<Rightarrow> Generated now
                                   | Some x \<Rightarrow> if x = [] then Generated now else Given x),
                      cr_inputTokens = inTok, cr_outputTokens = outTok,
                      cr_totalTokens = inTok + outTok, cr_model = m, cost = c\<rparr>;
                 tr2 = tr1\<lparr>callHistory := callHistory tr1 @ [r]\<rparr>
             in (Some r, snd (checkBudget tr2)))"

text \<open>A run of \<open>checkBudget()\<close> calls with no \<open>recordCall\<close> between them.\<close>

fun checkBudgetTimes :: "nat \<Rightarrow> TokenTracker \<Rightarrow> TokenTracker" where
  "checkBudgetTimes 0 tr = tr"
| "checkBudgetTimes (Suc n) tr = checkBudgetTimes n (snd (checkBudget tr))"

section \<open>Conversation manager (src/core/conversation-manager.js)\<close>

text \<open>
  The remote model is \<open>this.client.messages.create\<close>: a function from the request to
  either a thrown error (with its message) or a response. Of a response the code reads
  the text of the first content block, the usage figures, the model and the stop
  reason. The response is a JavaScript object, so each of these reads can fail inside
  the \<open>try\<close>:
  \<^item> with no content block, \<open>response.content[0].text\<close> throws;
  \<^item> a first block without a \<open>text\<close> member (\<open>None\<close> in \<open>r_content\<close>) gives
    \<open>undefined\<close>, and \<open>addMessage\<close> throws in its log line, after it has pushed
    the message;
  \<^item> a response without \<open>usage\<close> (\<open>None\<close> in \<open>r_usage\<close>) makes
    \<open>response.usage.input_tokens\<close> throw while the result is built, after the
    assistant message has been added.

  The field \<open>client\<close> records the requests sent, oldest first. A chat takes two
  clock readings: \<open>now\<close> when it is called and \<open>later\<close> when the remote call has
  returned.
\<close>

datatype role = User | Assistant

record Message =
  msg_role :: role
  msg_content :: string
  msg_timestamp :: int

record ApiParams =
  ap_model :: string
  ap_max_tokens :: nat
  ap_messages :: "(role \<times> string) list"
  ap_system :: "string option"
  ap_temperature :: "real option"

record RawUsage =
  input_tokens :: nat
  output_tokens :: nat

record Response =
  r_content :: "string option list"
  r_usage :: "RawUsage option"
  r_model :: string
  stop_reason :: "string option"

datatype remote_result = RemoteError string | RemoteOk Response

record ChatOptions =
  o_model :: "string option"
  o_maxTokens :: "nat option"
  o_temperature :: "real option"
  disableCache :: bool

record ConversationManager =
  conversationHistory :: "Message list"
  systemPrompt :: "string option"
  model :: string
  maxTokens :: nat
  temperature :: real
  sessionId :: string
  client :: "ApiParams list"

datatype error = BudgetExceeded | UpstreamError string | NoContent | NoText | NoUsage

record Usage =
  inputTokens :: nat
  outputTokens :: nat
  totalTokens :: nat

text \<open>
  The result objects: \<open>{success: false, error, content: null}\<close> is \<open>Failure\<close>,
  \<open>{success: true, content, fromCache: true, usage: null}\<close> is \<open>FromCache\<close>, and
  \<open>{success: true, content, usage, model, stopReason}\<close> is \<open>Reply\<close>. The functions
  below read the fields. \<open>BudgetExceeded\<close> is the fixed budget message of
  \<open>sendMessage\<close>, \<open>UpstreamError\<close> carries \<open>error.message\<close> of a failed remote call,
  and \<open>NoContent\<close>, \<open>NoText\<close> and \<open>NoUsage\<close> are the TypeErrors of a response
  without content blocks, without a text in its first block, and without usage figures.
\<close>

datatype Result =
    Failure error
  | FromCache string
  | Reply string Usage string "string option"

fun success :: "Result \<Rightarrow> bool" where
  "success (Failure e) = False"
| "success (FromCache text) = True"
| "success (Reply text u m sr) = True"

fun content :: "Result \<Rightarrow> string option" where
  "content (Failure e) = None"
| "content (FromCache text) = Some text"
| "content (Reply text u m sr) = Some text"

fun fromCache :: "Result \<Rightarrow> bool" where
  "fromCache (FromCache text) = True"
| "fromCache _ = False"

fun usage :: "Result \<Rightarrow> Usage option" where
  "usage (Reply text u m sr) = Some u"
| "usage _ = None"

definition addMessage :: "ConversationManager \<Rightarrow> int \<Rightarrow> role \<Rightarrow> string \<Rightarrow> ConversationManager" where
  "addMessage c now r text =
     c\<lparr>conversationHistory :=
         conversationHistory c @ [\<lparr>msg_role = r, msg_content = text, msg_timestamp = now\<rparr>]\<rparr>"

definition getFormattedHistory :: "ConversationManager \<Rightarrow> (role \<times> string) list" where
  "getFormattedHistory c = map (\<lambda>m. (msg_role m, msg_content m)) (conversationHistory c)"

text \<open>\<open>x || d\<close> on an optional string and on an optional count.\<close>

definition strOr :: "string option \<Rightarrow> string \<Rightarrow> string" where
  "strOr x d = (case x of None \<Rightarrow> d | Some v \<Rightarrow> if v = [] then d else v)"

definition natOr :: "nat option \<Rightarrow> nat \<Rightarrow> nat" where
  "natOr x d = (case x of None \<Rightarrow> d | Some v \<Rightarrow> if v = 0 then d else v)"

text \<open>
  \<open>addMessage(role, undefined)\<close>: the message is pushed, then \<open>content.substring\<close>
  throws. The pushed message has no content; the model gives it the empty text.
\<close>

definition addMessageUndefined :: "ConversationManager \<Rightarrow> int \<Rightarrow> role \<Rightarrow> ConversationManager" where
  "addMessageUndefined c now r =
     c\<lparr>conversationHistory :=
         conversationHistory c @ [\<lparr>msg_role = r, msg_content = [], msg_timestamp = now\<rparr>]\<rparr>"

text \<open>\<open>conversationHistory.pop()\<close>.\<close>

definition popMessage :: "ConversationManager \<Rightarrow> ConversationManager" where
  "popMessage c = c\<lparr>conversationHistory := butlast (conversationHistory c)\<rparr>"

text \<open>
  The request \<open>chat\<close> builds: an option overrides the stored default, the system
  prompt is sent when it is truthy, the temperature when the options give one.
\<close>

definition apiParamsOf :: "ConversationManager \<Rightarrow> ChatOptions \<Rightarrow> ApiParams" where
  "apiParamsOf c opts =
     \<lparr>ap_model = strOr (o_model opts) (model c),
      ap_max_tokens = natOr (o_maxTokens opts) (maxTokens c),
      ap_messages = getFormattedHistory c,
      ap_system = (case systemPrompt c of
                     None \<Rightarrow> None
                   | Some p \<Rightarrow> if p = [] then None else Some p),
      ap_temperature = o_temperature opts\<rparr>"

definition chat ::
  "ConversationManager \<Rightarrow> (ApiParams \<Rightarrow> remote_result) \<Rightarrow> int \<Rightarrow> int \<Rightarrow> string \<Rightarrow> ChatOptions
     \<Rightarrow> Result \<times> ConversationManager" where
  "chat c create now later userInput opts =
     (let c1 = addMessage c now User userInput;
          apiParams = apiParamsOf c1 opts;
          c2 = c1\<lparr>client := client c1 @ [apiParams]\<rparr>
      in case create apiParams of
           RemoteError msg \<Rightarrow> (Failure (UpstreamError msg), popMessage c2)
         | RemoteOk response \<Rightarrow>
             (case r_content response of
                [] \<Rightarrow> (Failure NoContent, popMessage c2)
              | None # _ \<Rightarrow>
                  (Failure NoText, popMessage (addMessageUndefined c2 later Assistant))
              | Some assistantText # _ \<Rightarrow>
                  (let c3 = addMessage c2 later Assistant assistantText
                   in case r_usage response of
                        None \<Rightarrow> (Failure NoUsage, popMessage c3)
                      | Some u \<Rightarrow>
                          (Reply assistantText
                             \<lparr>inputTokens = input_tokens u,
                              outputTokens = output_tokens u,
                              totalTokens = input_tokens u + output_tokens u\<rparr>
                             (r_model response) (stop_reason response),
                           c3))))"

text \<open>A sequence of \<open>chat\<close> calls on one conversation, each with its own remote outcome.\<close>

record ChatCall =
  cc_create :: "ApiParams \<Rightarrow> remote_result"
  cc_now :: int
  cc_later :: int
  cc_input :: string
  cc_options :: ChatOptions

fun chats :: "ConversationManager \<Rightarrow> ChatCall list \<Rightarrow> ConversationManager" where
  "chats c [] = c"
| "chats c (x # xs) =
     chats (snd (chat c (cc_create x) (cc_now x) (cc_later x) (cc_input x) (cc_options x))) xs"

text \<open>A history of rounds: a user message, then an assistant message, and so on.\<close>

fun alternating :: "Message list \<Rightarrow> bool" where
  "alternating [] = True"
| "alternating [m] = False"
| "alternating (u # a # ms) = (msg_role u = User \<and> msg_role a = Assistant \<and> alternating ms)"

text \<open>
  A remote outcome that \<open>chat\<close> can process to the end or roll back: a thrown error, a
  response without content blocks, or a response whose first block carries a text and
  that has its usage figures.
\<close>

definition complete :: "remote_result \<Rightarrow> bool" where
  "complete r =
     (case r of
        RemoteError msg \<Rightarrow> True
      | RemoteOk response \<Rightarrow>
          (case r_content response of
             [] \<Rightarrow> True
           | None # _ \<Rightarrow> False
           | Some text # _ \<Rightarrow> r_usage response \<noteq> None))"

section \<open>Cache key (generateKey in src/core/cache-manager.js)\<close>

text \<open>
  \<open>generateKey\<close> builds the object \<open>keyData\<close> and returns the first 16 characters of
  the hexadecimal SHA-256 digest of \<open>JSON.stringify(keyData)\<close>. Node's
  \<open>crypto.createHash('sha256')\<close> and \<open>JSON.stringify\<close> are not code of the repository:
  their composition is the parameter \<open>digest\<close>, a function of the key data.
\<close>

record KeyOptions =
  k_model :: "string option"
  k_maxTokens :: "nat option"
  k_temperature :: "real option"
  k_systemPrompt :: "string option"

record KeyData =
  kd_message :: string
  kd_model :: string
  kd_maxTokens :: nat
  kd_temperature :: "real option"
  kd_systemPrompt :: "string option"

definition keyDataOf :: "Config \<Rightarrow> string \<Rightarrow> KeyOptions \<Rightarrow> KeyData" where
  "keyDataOf cfg message options =
     \<lparr>kd_message = message,
      kd_model = strOr (k_model options) (DEFAULT_MODEL cfg),
      kd_maxTokens = natOr (k_maxTokens options) (DEFAULT_MAX_TOKENS cfg),
      kd_temperature = k_temperature options,
      kd_systemPrompt = k_systemPrompt options\<rparr>"

definition generateKey :: "Config \<Rightarrow> (KeyData \<Rightarrow> string) \<Rightarrow> string \<Rightarrow> KeyOptions \<Rightarrow> string" where
  "generateKey cfg digest message options = take 16 (digest (keyDataOf cfg message options))"

section \<open>The assistant (src/services/clever-assistant.js)\<close>

record CleverAssistant =
  conversation :: ConversationManager
  tokenTracker :: TokenTracker
  cacheManager :: CacheManager
  currentMode :: string

text \<open>
  The key \<open>sendMessage\<close> derives: it passes the model, the temperature and the system
  prompt of the conversation to \<open>generateKey\<close>, and no \<open>maxTokens\<close>.
\<close>

definition requestOptions :: "ConversationManager \<Rightarrow> KeyOptions" where
  "requestOptions c =
     \<lparr>k_model = Some (model c), k_maxTokens = None,
      k_temperature = Some (temperature c), k_systemPrompt = systemPrompt c\<rparr>"

definition requestKey ::
  "Config \<Rightarrow> (KeyData \<Rightarrow> string) \<Rightarrow> ConversationManager \<Rightarrow> string \<Rightarrow> string" where
  "requestKey cfg digest c userInput = generateKey cfg digest userInput (requestOptions c)"

text \<open>
  \<open>sendMessage\<close>. A cached response is used when it is truthy (present and not the
  empty string) and \<open>options.disableCache\<close> is not set. \<open>callRemote\<close> is the part of
  the method after the cache check. The result is \<open>None\<close> when the TypeError of
  \<open>recordCall\<close> leaves the method; the state is then as the exception left it.
\<close>

definition callRemote ::
  "Config \<Rightarrow> (ApiParams \<Rightarrow> remote_result) \<Rightarrow> int \<Rightarrow> int \<Rightarrow> CleverAssistant \<Rightarrow> string
     \<Rightarrow> string \<Rightarrow> ChatOptions \<Rightarrow> Result option \<times> CleverAssistant" where
  "callRemote cfg create now later a cacheKey userInput opts =
     (let sent = chat (conversation a) create now later userInput opts;
          response = fst sent;
          a2 = a\<lparr>conversation := snd sent\<rparr>
      in case response of
           Reply text usg m sr \<Rightarrow>
             (let rec = recordCall cfg (tokenTracker a2) later (inputTokens usg)
                          (outputTokens usg) (Some m) None;
                  a3 = a2\<lparr>tokenTracker := snd rec\<rparr>
              in case fst rec of
                   None \<Rightarrow> (None, a3)
                 | Some r \<Rightarrow>
                     (Some response,
                      a3\<lparr>cacheManager :=
                           snd (cache_set (cacheManager a3) later cacheKey text None)\<rparr>))
         | _ \<Rightarrow> (Some response, a2))"

definition sendMessage ::
  "Config \<Rightarrow> (KeyData \<Rightarrow> string) \<Rightarrow> (ApiParams \<Rightarrow> remote_result) \<Rightarrow> int \<Rightarrow> int
     \<Rightarrow> CleverAssistant \<Rightarrow> string \<Rightarrow> ChatOptions \<Rightarrow> Result option \<times> CleverAssistant" where
  "sendMessage cfg digest create now later a userInput opts =
     (let budgetStatus = fst (checkBudget (tokenTracker a))
      in if isOverBudget budgetStatus then (Some (Failure BudgetExceeded), a)
         else
           let cacheKey = requestKey cfg digest (conversation a) userInput;
               got = cache_get (cacheManager a) now cacheKey;
               a1 = a\<lparr>cacheManager := snd got\<rparr>
           in case fst got of
                None \<Rightarrow> callRemote cfg create now later a1 cacheKey userInput opts
              | Some cachedResponse \<Rightarrow>
                  if cachedResponse \<noteq> [] \<and> \<not> disableCache opts then
                    let c1 = addMessage (conversation a1) now User userInput;
                        c2 = addMessage c1 now Assistant cachedResponse
                    in (Some (FromCache cachedResponse), a1\<lparr>conversation := c2\<rparr>)
                  else callRemote cfg create now later a1 cacheKey userInput opts)"

section \<open>Example states\<close>

definition emptyStore :: CacheManager where
  "emptyStore =
     \<lparr>enabled = True, maxSize = 2, defaultTTL = 3600000, cache = [], accessOrder = [],
      persistenceEnabled = True, stats = zeroStats, cacheFile = None, fsWritable = True\<rparr>"

text \<open>A store whose only entry was created at time 0 with a time-to-live of 10.\<close>

definition boundaryItem :: CacheItem where
  "boundaryItem = \<lparr>ci_key = ''k'', ci_value = ''v'', createdAt = 0, ttl = 10, ci_hits = 0\<rparr>"

definition boundaryStore :: CacheManager where
  "boundaryStore = emptyStore\<lparr>cache := [(''k'', boundaryItem)], accessOrder := [''k'']\<rparr>"

text \<open>
  The default configuration of config.js, a new conversation and a new tracker under
  it, and the tracker of Scenario B: with a budget of 0.50, one call of 200000 input
  tokens at 3 dollars per million is recorded, a cost of 0.60.
\<close>

definition exampleConfig :: Config where
  "exampleConfig =
     \<lparr>DEFAULT_MODEL = ''claude-3-5-sonnet-20241022'', DEFAULT_MAX_TOKENS = 1024,
      BUDGET_LIMIT = 0.5, WARN_THRESHOLD = 0.8, ENABLE_CACHE = True, CACHE_MAX_SIZE = 100,
      MODEL_PRICES =
        [(''claude-3-5-sonnet-20241022'',
            \<lparr>price_input = 3, price_output = 15, price_name = ''Claude 3.5 Sonnet''\<rparr>),
         (''claude-3-opus-20240229'',
            \<lparr>price_input = 15, price_output = 75, price_name = ''Claude 3 Opus''\<rparr>),
         (''claude-3-haiku-20240307'',
            \<lparr>price_input = 0.25, price_output = 1.25, price_name = ''Claude 3 Haiku''\<rparr>),
         (''GLM-4.7'',
            \<lparr>price_input = 0.5, price_output = 0.5, price_name = ''GLM-4.7''\<rparr>)]\<rparr>"

definition exampleConversation :: ConversationManager where
  "exampleConversation =
     \<lparr>conversationHistory = [], systemPrompt = None,
      model = ''claude-3-5-sonnet-20241022'', maxTokens = 1024, temperature = 0.7,
      sessionId = ''session-1'', client = []\<rparr>"

definition exampleOptions :: ChatOptions where
  "exampleOptions =
     \<lparr>o_model = None, o_maxTokens = None, o_temperature = None, disableCache = False\<rparr>"

definition newTracker :: TokenTracker where
  "newTracker =
     \<lparr>totalInputTokens = 0, totalOutputTokens = 0, totalRequests = 0, callHistory = [],
      budgetLimit = 0.5, warnThreshold = 0.8\<rparr>"

definition overBudgetTracker :: TokenTracker where
  "overBudgetTracker = snd (recordCall exampleConfig newTracker 0 200000 0 None None)"

text \<open>A store holding one answer under a given key, created at time 0.\<close>

definition cachedItem :: "string \<Rightarrow> CacheItem" where
  "cachedItem k =
     \<lparr>ci_key = k, ci_value = ''cached answer'', createdAt = 0, ttl = 3600000, ci_hits = 0\<rparr>"

definition storeWith :: "string \<Rightarrow> CacheManager" where
  "storeWith k = emptyStore\<lparr>cache := [(k, cachedItem k)], accessOrder := [k]\<rparr>"

definition assistantWith :: "TokenTracker \<Rightarrow> string \<Rightarrow> CleverAssistant" where
  "assistantWith tr k =
     \<lparr>conversation = exampleConversation, tokenTracker = tr, cacheManager = storeWith k,
      currentMode = ''learning''\<rparr>"

text \<open>
  A stand-in for the digest in closed examples. The theorems hold for every digest
  function, so the choice does not matter.
\<close>

definition exampleDigest :: "KeyData \<Rightarrow> string" where
  "exampleDigest kd = kd_message kd"

definition remoteDown :: "ApiParams \<Rightarrow> remote_result" where
  "remoteDown p = RemoteError ''unreachable''"

text \<open>
  Two responses of the remote model: one whose first content block carries no text,
  and one that carries a text but no usage figures. \<open>hiCall\<close> is a chat call with the
  message \<open>hi\<close> that a given response answers.
\<close>

definition noTextResponse :: Response where
  "noTextResponse =
     \<lparr>r_content = [None], r_usage = Some \<lparr>input_tokens = 10, output_tokens = 5\<rparr>,
      r_model = ''claude-3-5-sonnet-20241022'', stop_reason = Some ''tool_use''\<rparr>"

definition noUsageResponse :: Response where
  "noUsageResponse =
     \<lparr>r_content = [Some ''hello''], r_usage = None,
      r_model = ''claude-3-5-sonnet-20241022'', stop_reason = Some ''end_turn''\<rparr>"

definition hiCall :: "Response \<Rightarrow> ChatCall" where
  "hiCall r =
     \<lparr>cc_create = (\<lambda>p. RemoteOk r), cc_now = 1, cc_later = 2, cc_input = ''hi'',
      cc_options = exampleOptions\<rparr>"

text \<open>The key the example conversation derives for the message \<open>hi\<close>.\<close>

definition hiKey :: "(KeyData \<Rightarrow> string) \<Rightarrow> string" where
  "hiKey digest = requestKey exampleConfig digest exampleConversation ''hi''"

text \<open>Constructor options that enable the cache and leave the rest to the defaults.\<close>

definition enabledOptions :: CacheOptions where
  "enabledOptions =
     \<lparr>opt_enabled = Some True, opt_maxSize = None, opt_ttl = None, opt_persist = None\<rparr>"

text \<open>
  The manager constructed under \<open>CACHE_MAX_SIZE=0\<close>, with the cache enabled and
  persistence switched off: an empty enabled store of capacity 0.
\<close>

definition zeroCapacityStore :: CacheManager where
  "zeroCapacityStore =
     newCacheManager (exampleConfig\<lparr>CACHE_MAX_SIZE := 0\<rparr>)
       (enabledOptions\<lparr>opt_persist := Some False\<rparr>) None True 0"

section \<open>Basic facts about the cache operations\<close>

lemmas cache_defs =
  cache_set_def cache_get_def cache_delete_def cache_clear_def evictLRU_def
  updateAccessOrder_def save_def snapshotOf_def newCacheItem_def isExpired_def touch_def
  countMiss_def numOr_def makeRoom_def

lemma save_fields [simp]:
  "cache (snd (save s now)) = cache s"
  "accessOrder (snd (save s now)) = accessOrder s"
  "maxSize (snd (save s now)) = maxSize s"
  "stats (snd (save s now)) = stats s"
  "enabled (snd (save s now)) = enabled s"
  "defaultTTL (snd (save s now)) = defaultTTL s"
  "persistenceEnabled (snd (save s now)) = persistenceEnabled s"
  "fsWritable (snd (save s now)) = fsWritable s"
  by (simp_all add: save_def)

lemma cache_delete_fields [simp]:
  "cache (snd (cache_delete s now k)) = AList.delete k (cache s)"
  "maxSize (snd (cache_delete s now k)) = maxSize s"
  "enabled (snd (cache_delete s now k)) = enabled s"
  "defaultTTL (snd (cache_delete s now k)) = defaultTTL s"
  "persistenceEnabled (snd (cache_delete s now k)) = persistenceEnabled s"
  "fsWritable (snd (cache_delete s now k)) = fsWritable s"
  by (simp_all add: cache_delete_def Let_def)

lemma cache_delete_accessOrder:
  "accessOrder (snd (cache_delete s now k)) =
     (if k \<in> fst ` set (cache s) then filter (\<lambda>k'. k' \<noteq> k) (accessOrder s)
      else accessOrder s)"
  by (simp add: cache_delete_def Let_def)

lemma cache_delete_stats:
  "stats (snd (cache_delete s now k)) =
     (if k \<in> fst ` set (cache s) then (stats s)\<lparr>deletes := deletes (stats s) + 1\<rparr>
      else stats s)"
  by (simp add: cache_delete_def Let_def)

lemma evictLRU_fields [simp]:
  "maxSize (evictLRU s) = maxSize s"
  "enabled (evictLRU s) = enabled s"
  "defaultTTL (evictLRU s) = defaultTTL s"
  "persistenceEnabled (evictLRU s) = persistenceEnabled s"
  "fsWritable (evictLRU s) = fsWritable s"
  "cacheFile (evictLRU s) = cacheFile s"
  by (simp_all add: evictLRU_def split: list.splits)

lemma evictLRU_Cons:
  "accessOrder s = h # rest \<Longrightarrow>
     cache (evictLRU s) = AList.delete h (cache s) \<and> accessOrder (evictLRU s) = rest \<and>
     stats (evictLRU s) = (stats s)\<lparr>evictions := evictions (stats s) + 1\<rparr>"
  by (simp add: evictLRU_def)

lemma evictLRU_Nil: "accessOrder s = [] \<Longrightarrow> evictLRU s = s"
  by (simp add: evictLRU_def)

lemma makeRoom_fields [simp]:
  "maxSize (makeRoom s k) = maxSize s"
  "enabled (makeRoom s k) = enabled s"
  "defaultTTL (makeRoom s k) = defaultTTL s"
  "persistenceEnabled (makeRoom s k) = persistenceEnabled s"
  "fsWritable (makeRoom s k) = fsWritable s"
  "cacheFile (makeRoom s k) = cacheFile s"
  by (simp_all add: makeRoom_def)

lemma cache_set_fields [simp]:
  "maxSize (snd (cache_set s now k v t)) = maxSize s"
  "enabled (snd (cache_set s now k v t)) = enabled s"
  "defaultTTL (snd (cache_set s now k v t)) = defaultTTL s"
  "persistenceEnabled (snd (cache_set s now k v t)) = persistenceEnabled s"
  "fsWritable (snd (cache_set s now k v t)) = fsWritable s"
  by (simp_all add: cache_set_def Let_def updateAccessOrder_def)

lemma cache_set_enabled:
  "enabled s \<Longrightarrow>
     cache (snd (cache_set s now k v t)) =
       AList.update k (newCacheItem now k v (numOr t (defaultTTL s))) (cache (makeRoom s k)) \<and>
     accessOrder (snd (cache_set s now k v t)) = remove1 k (accessOrder (makeRoom s k)) @ [k] \<and>
     stats (snd (cache_set s now k v t)) =
       (stats (makeRoom s k))\<lparr>sets := sets (stats (makeRoom s k)) + 1\<rparr>"
  by (simp add: cache_set_def Let_def updateAccessOrder_def)

lemma cache_set_disabled: "\<not> enabled s \<Longrightarrow> cache_set s now k v t = (False, s)"
  by (simp add: cache_set_def)

lemma cache_get_fields [simp]:
  "maxSize (snd (cache_get s now k)) = maxSize s"
  "enabled (snd (cache_get s now k)) = enabled s"
  "defaultTTL (snd (cache_get s now k)) = defaultTTL s"
  "persistenceEnabled (snd (cache_get s now k)) = persistenceEnabled s"
  "fsWritable (snd (cache_get s now k)) = fsWritable s"
  by (simp_all add: cache_get_def Let_def updateAccessOrder_def countMiss_def
      split: option.splits)

lemma cache_get_hit:
  "enabled s \<Longrightarrow> map_of (cache s) k = Some item \<Longrightarrow> \<not> isExpired item now \<Longrightarrow>
     fst (cache_get s now k) = Some (ci_value item) \<and>
     cache (snd (cache_get s now k)) = AList.update k (touch item) (cache s) \<and>
     accessOrder (snd (cache_get s now k)) = remove1 k (accessOrder s) @ [k] \<and>
     stats (snd (cache_get s now k)) = (stats s)\<lparr>hits := hits (stats s) + 1\<rparr>"
  by (simp add: cache_get_def Let_def updateAccessOrder_def)

lemma cache_get_expired:
  "enabled s \<Longrightarrow> map_of (cache s) k = Some item \<Longrightarrow> isExpired item now \<Longrightarrow>
     cache_get s now k = (None, countMiss (snd (cache_delete s now k)))"
  by (simp add: cache_get_def)

lemma map_of_present: "map_of al k = Some v \<Longrightarrow> k \<in> fst ` set al"
  by (force dest: map_of_SomeD simp: image_iff)

section \<open>Deleting an absent key\<close>

text \<open>
  C10. \<open>delete(key)\<close> for a key that is not in the cache returns false and leaves the
  whole store as it was: the entries, the access order, every counter and the file.
\<close>

theorem delete_absent_unchanged:
  "k \<notin> fst ` set (cache s) \<Longrightarrow> cache_delete s now k = (False, s)"
  by (simp add: cache_delete_def)

theorem delete_absent_unchanged_witness:
  "''k'' \<notin> fst ` set (cache emptyStore) \<and>
   cache_delete emptyStore 5 ''k'' = (False, emptyStore)"
  using delete_absent_unchanged [of "''k''" emptyStore 5] by (simp add: emptyStore_def)

section \<open>Scenario A: least-recently-used eviction\<close>

text \<open>
  C4. On an empty enabled cache with \<open>maxSize = 2\<close> and distinct keys \<open>k1\<close>, \<open>k2\<close>,
  \<open>k3\<close>, the sequence set(k1,"a"); set(k2,"b"); get(k1); set(k3,"c") evicts exactly
  \<open>k2\<close>: the get is a hit and moves \<open>k1\<close> behind \<open>k2\<close> in the access order, one
  eviction is counted, and the cache ends with exactly the entries of \<open>k1\<close> and \<open>k3\<close>.
  The get touches \<open>k1\<close> when \<open>k1\<close> has not expired by then, which is the hypothesis
  on the clock readings.
\<close>

theorem scenario_A_evicts_k2:
  assumes d: "k1 \<noteq> k2" "k1 \<noteq> k3" "k2 \<noteq> k3"
    and s0: "enabled s0" "maxSize s0 = 2" "cache s0 = []" "accessOrder s0 = []"
    and fresh: "t3 - t1 \<le> defaultTTL s0"
  shows "map (\<lambda>(k, item). (k, ci_value item))
           (cache (run s0 [Set t1 k1 ''a'' None, Set t2 k2 ''b'' None, Get t3 k1,
                           Set t4 k3 ''c'' None]))
         = [(k1, ''a''), (k3, ''c'')]
       \<and> accessOrder (run s0 [Set t1 k1 ''a'' None, Set t2 k2 ''b'' None, Get t3 k1,
                               Set t4 k3 ''c'' None]) = [k1, k3]
       \<and> map fst (cache (run s0 [Set t1 k1 ''a'' None, Set t2 k2 ''b'' None, Get t3 k1]))
         = [k1, k2]
       \<and> accessOrder (run s0 [Set t1 k1 ''a'' None, Set t2 k2 ''b'' None, Get t3 k1])
         = [k2, k1]
       \<and> fst (cache_get (run s0 [Set t1 k1 ''a'' None, Set t2 k2 ''b'' None]) t3 k1)
         = Some ''a''
       \<and> evictions (stats (run s0 [Set t1 k1 ''a'' None, Set t2 k2 ''b'' None, Get t3 k1,
                                    Set t4 k3 ''c'' None]))
         = evictions (stats s0) + 1"
proof -
  define i1 where "i1 = newCacheItem t1 k1 ''a'' (defaultTTL s0)"
  define i2 where "i2 = newCacheItem t2 k2 ''b'' (defaultTTL s0)"
  define i3 where "i3 = newCacheItem t4 k3 ''c'' (defaultTTL s0)"
  define s1 where "s1 = snd (cache_set s0 t1 k1 ''a'' None)"
  define s2 where "s2 = snd (cache_set s1 t2 k2 ''b'' None)"
  define s3 where "s3 = snd (cache_get s2 t3 k1)"
  define s4 where "s4 = snd (cache_set s3 t4 k3 ''c'' None)"
  have m0: "makeRoom s0 k1 = s0"
    using s0 by (simp add: makeRoom_def evictLRU_Nil)
  have c1: "cache s1 = [(k1, i1)]" "accessOrder s1 = [k1]"
      "evictions (stats s1) = evictions (stats s0)"
    using cache_set_enabled [OF s0(1), of t1 k1 "''a''" None] s0
    by (simp_all add: s1_def m0 i1_def numOr_def)
  have e1: "enabled s1" "maxSize s1 = 2" "defaultTTL s1 = defaultTTL s0"
    using s0 by (simp_all add: s1_def)
  have m1: "makeRoom s1 k2 = s1"
    using c1 e1 by (simp add: makeRoom_def)
  have c2: "cache s2 = [(k1, i1), (k2, i2)]" "accessOrder s2 = [k1, k2]"
      "evictions (stats s2) = evictions (stats s0)"
    using cache_set_enabled [OF e1(1), of t2 k2 "''b''" None] c1 e1 d
    by (simp_all add: s2_def m1 i2_def numOr_def)
  have e2: "enabled s2" "maxSize s2 = 2" "defaultTTL s2 = defaultTTL s0"
    using e1 by (simp_all add: s2_def)
  have look: "map_of (cache s2) k1 = Some i1"
    by (simp add: c2)
  have nexp: "\<not> isExpired i1 t3"
    using fresh by (simp add: isExpired_def i1_def newCacheItem_def)
  note hit = cache_get_hit [OF e2(1) look nexp]
  have c3: "cache s3 = [(k1, touch i1), (k2, i2)]" "accessOrder s3 = [k2, k1]"
      "evictions (stats s3) = evictions (stats s0)"
    using hit c2 d by (simp_all add: s3_def)
  have e3: "enabled s3" "maxSize s3 = 2" "defaultTTL s3 = defaultTTL s0"
    using e2 by (simp_all add: s3_def)
  have m3: "cache (makeRoom s3 k3) = [(k1, touch i1)]" "accessOrder (makeRoom s3 k3) = [k1]"
      "evictions (stats (makeRoom s3 k3)) = evictions (stats s0) + 1"
    using evictLRU_Cons [OF c3(2)] c3 e3 d by (simp_all add: makeRoom_def)
  have c4: "cache s4 = [(k1, touch i1), (k3, i3)]" "accessOrder s4 = [k1, k3]"
      "evictions (stats s4) = evictions (stats s0) + 1"
    using cache_set_enabled [OF e3(1), of t4 k3 "''c''" None] m3 e3 d
    by (simp_all add: s4_def i3_def numOr_def)
  have r4: "run s0 [Set t1 k1 ''a'' None, Set t2 k2 ''b'' None, Get t3 k1,
                    Set t4 k3 ''c'' None] = s4"
    by (simp add: s1_def s2_def s3_def s4_def)
  have r3: "run s0 [Set t1 k1 ''a'' None, Set t2 k2 ''b'' None, Get t3 k1] = s3"
    by (simp add: s1_def s2_def s3_def)
  have r2: "run s0 [Set t1 k1 ''a'' None, Set t2 k2 ''b'' None] = s2"
    by (simp add: s1_def s2_def)
  show ?thesis
    unfolding r4 r3 r2
    using c4 c3 hit by (simp add: touch_def i1_def i3_def newCacheItem_def)
qed

theorem scenario_A_evicts_k2_witness:
  "map (\<lambda>(k, item). (k, ci_value item))
     (cache (run emptyStore [Set 0 ''k1'' ''a'' None, Set 1 ''k2'' ''b'' None, Get 2 ''k1'',
                             Set 3 ''k3'' ''c'' None]))
   = [(''k1'', ''a''), (''k3'', ''c'')]
   \<and> evictions (stats (run emptyStore [Set 0 ''k1'' ''a'' None, Set 1 ''k2'' ''b'' None,
                                       Get 2 ''k1'', Set 3 ''k3'' ''c'' None])) = 1"
  using scenario_A_evicts_k2 [where ?k1.0 = "''k1''" and ?k2.0 = "''k2''" and ?k3.0 = "''k3''"
      and ?s0.0 = emptyStore and ?t1.0 = 0 and ?t2.0 = 1 and ?t3.0 = 2 and ?t4.0 = 3]
  by (simp add: emptyStore_def zeroStats_def)

section \<open>Expiry on read\<close>

text \<open>
  C5, as the code has it. For an enabled cache, a \<open>get(key)\<close> at a time \<open>now\<close> with
  \<open>now - createdAt > ttl\<close> for the stored entry returns the absence indicator, removes
  the entry from the entry map and from the access order, and increments the miss
  counter. The comparison is strict: \<open>isExpired\<close> is \<open>Date.now() - createdAt > ttl\<close>.
\<close>

theorem get_expired_removes_entry:
  assumes "enabled s" "map_of (cache s) k = Some item" "now - createdAt item > ttl item"
  shows "fst (cache_get s now k) = None
       \<and> k \<notin> fst ` set (cache (snd (cache_get s now k)))
       \<and> k \<notin> set (accessOrder (snd (cache_get s now k)))
       \<and> misses (stats (snd (cache_get s now k))) = misses (stats s) + 1"
proof -
  have present: "k \<in> fst ` set (cache s)"
    using assms(2) by (rule map_of_present)
  have g: "cache_get s now k = (None, countMiss (snd (cache_delete s now k)))"
    using assms by (simp add: cache_get_expired isExpired_def)
  show ?thesis
    using present
    by (simp add: g countMiss_def cache_delete_accessOrder cache_delete_stats
        delete_notin_dom)
qed

theorem get_expired_removes_entry_witness:
  "enabled boundaryStore \<and> map_of (cache boundaryStore) ''k'' = Some boundaryItem
   \<and> 11 - createdAt boundaryItem > ttl boundaryItem
   \<and> fst (cache_get boundaryStore 11 ''k'') = None
   \<and> ''k'' \<notin> fst ` set (cache (snd (cache_get boundaryStore 11 ''k'')))
   \<and> misses (stats (snd (cache_get boundaryStore 11 ''k''))) = misses (stats boundaryStore) + 1"
proof -
  have h: "enabled boundaryStore" "map_of (cache boundaryStore) ''k'' = Some boundaryItem"
      "11 - createdAt boundaryItem > ttl boundaryItem"
    by (simp_all add: boundaryStore_def emptyStore_def boundaryItem_def)
  show ?thesis
    using h get_expired_removes_entry [OF h] by simp
qed

text \<open>
  At \<open>now - createdAt = ttl\<close> the entry is not expired: the read at time 10 of the
  entry created at 0 with a time-to-live of 10 is a hit, the entry stays, and no miss
  is counted.
\<close>

theorem get_at_ttl_counterexample:
  "enabled boundaryStore \<and> map_of (cache boundaryStore) ''k'' = Some boundaryItem
   \<and> 10 - createdAt boundaryItem \<ge> ttl boundaryItem
   \<and> fst (cache_get boundaryStore 10 ''k'') = Some ''v''
   \<and> ''k'' \<in> fst ` set (cache (snd (cache_get boundaryStore 10 ''k'')))
   \<and> misses (stats (snd (cache_get boundaryStore 10 ''k''))) = misses (stats boundaryStore)"
  by (simp add: boundaryStore_def boundaryItem_def emptyStore_def cache_defs Let_def
      zeroStats_def)

section \<open>Capacity bound and access order\<close>

subsection \<open>The access order follows the last accesses\<close>

lemma remdups_snoc: "remdups (xs @ [k]) = filter (\<lambda>x. x \<noteq> k) (remdups xs) @ [k]"
  by (induction xs) auto

lemma filter_neq_id: "k \<notin> set xs \<Longrightarrow> filter (\<lambda>x. x \<noteq> k) xs = xs"
  by (induction xs) auto

lemma remove1_distinct_filter: "distinct xs \<Longrightarrow> remove1 k xs = filter (\<lambda>x. x \<noteq> k) xs"
  by (induction xs) (auto simp: filter_neq_id)

lemma length_delete_present:
  "distinct (map fst al) \<Longrightarrow> k \<in> fst ` set al \<Longrightarrow> length (AList.delete k al) + 1 = length al"
  by (induction al) (auto simp: image_iff)

lemma keys_delete: "fst ` set (AList.delete k al) = fst ` set al - {k}"
  by (induction al) auto

lemma length_update_present:
  "k \<in> fst ` set al \<Longrightarrow> length (AList.update k v al) = length al"
  by (induction al) auto

lemma length_update_absent:
  "k \<notin> fst ` set al \<Longrightarrow> length (AList.update k v al) = length al + 1"
  by (induction al) auto

lemma byLastAccess_distinct: "distinct (byLastAccess s accs)"
  by (simp add: byLastAccess_def)

lemma byLastAccess_set: "set (byLastAccess s accs) = fst ` set (cache s) \<inter> set accs"
  by (auto simp: byLastAccess_def)

lemma ordered_inv_cong:
  "cache s' = cache s \<Longrightarrow> accessOrder s' = accessOrder s \<Longrightarrow>
     ordered_inv s' accs = ordered_inv s accs"
  by (simp add: ordered_inv_def byLastAccess_def)

lemma ordered_delete:
  assumes "ordered_inv s accs"
  shows "ordered_inv (snd (cache_delete s now k)) accs"
proof -
  have ao: "accessOrder (snd (cache_delete s now k)) = filter (\<lambda>k'. k' \<noteq> k) (accessOrder s)"
  proof (cases "k \<in> fst ` set (cache s)")
    case True then show ?thesis by (simp add: cache_delete_accessOrder)
  next
    case False
    then have "k \<notin> set (accessOrder s)"
      using assms by (simp add: ordered_inv_def byLastAccess_set)
    then show ?thesis using False by (simp add: cache_delete_accessOrder filter_neq_id)
  qed
  have "filter (\<lambda>k'. k' \<noteq> k) (byLastAccess s accs)
        = byLastAccess (snd (cache_delete s now k)) accs"
    by (simp add: byLastAccess_def keys_delete conj_commute)
  then show ?thesis
    using assms ao
    by (auto simp: ordered_inv_def distinct_delete keys_delete)
qed

lemma ordered_access:
  assumes inv: "ordered_inv s accs"
    and c: "cache s' = AList.update k v (cache s)"
    and ao: "accessOrder s' = remove1 k (accessOrder s) @ [k]"
  shows "ordered_inv s' (accs @ [k])"
proof -
  have d: "distinct (accessOrder s)"
    using inv by (simp add: ordered_inv_def byLastAccess_distinct)
  have keys: "fst ` set (cache s') = insert k (fst ` set (cache s))"
    by (simp add: c dom_update)
  have "byLastAccess s' (accs @ [k])
        = filter (\<lambda>x. x \<in> fst ` set (cache s')) (filter (\<lambda>x. x \<noteq> k) (remdups accs)) @ [k]"
    by (simp add: byLastAccess_def remdups_snoc keys)
  also have "filter (\<lambda>x. x \<in> fst ` set (cache s')) (filter (\<lambda>x. x \<noteq> k) (remdups accs))
        = filter (\<lambda>x. x \<noteq> k) (byLastAccess s accs)"
    unfolding byLastAccess_def filter_filter keys
    by (rule filter_cong) auto
  also have "\<dots> = remove1 k (accessOrder s)"
    using inv d by (simp add: ordered_inv_def remove1_distinct_filter)
  finally have "byLastAccess s' (accs @ [k]) = accessOrder s'"
    by (simp add: ao)
  then show ?thesis
    using inv by (auto simp: ordered_inv_def c distinct_update dom_update)
qed

lemma ordered_evict:
  assumes inv: "ordered_inv s accs"
  shows "ordered_inv (evictLRU s) accs"
proof (cases "accessOrder s")
  case Nil
  then show ?thesis using inv by (simp add: evictLRU_Nil)
next
  case (Cons h rest)
  note ev = evictLRU_Cons [OF Cons]
  have d: "distinct (h # rest)"
    using inv Cons by (metis ordered_inv_def byLastAccess_distinct)
  have "byLastAccess (evictLRU s) accs = filter (\<lambda>x. x \<noteq> h) (byLastAccess s accs)"
    by (simp add: byLastAccess_def ev keys_delete conj_commute)
  also have "\<dots> = filter (\<lambda>x. x \<noteq> h) (h # rest)"
    using inv Cons by (simp add: ordered_inv_def)
  also have "\<dots> = rest"
    using d by (simp add: filter_neq_id)
  finally show ?thesis
    using inv ev by (auto simp: ordered_inv_def distinct_delete keys_delete)
qed

lemma ordered_makeRoom: "ordered_inv s accs \<Longrightarrow> ordered_inv (makeRoom s k) accs"
  by (simp add: makeRoom_def ordered_evict)

lemma ordered_set:
  assumes "ordered_inv s accs"
  shows "ordered_inv (snd (cache_set s now k v t)) (accs @ accessed s (Set now k v t))"
proof (cases "enabled s")
  case True
  show ?thesis
    using ordered_access [OF ordered_makeRoom [OF assms]] cache_set_enabled [OF True] True
    by simp
next
  case False
  then show ?thesis using assms by (simp add: cache_set_disabled)
qed

lemma ordered_countMiss [simp]: "ordered_inv (countMiss s) accs = ordered_inv s accs"
  by (rule ordered_inv_cong) (simp_all add: countMiss_def)

lemma ordered_get:
  assumes "ordered_inv s accs"
  shows "ordered_inv (snd (cache_get s now k)) (accs @ accessed s (Get now k))"
proof (cases "enabled s")
  case False
  then show ?thesis using assms by (simp add: cache_get_def)
next
  case True
  show ?thesis
  proof (cases "map_of (cache s) k")
    case None
    then show ?thesis using assms True by (simp add: cache_get_def)
  next
    case (Some item)
    show ?thesis
    proof (cases "isExpired item now")
      case exp: True
      show ?thesis
        using assms by (simp add: cache_get_expired [OF True Some exp] ordered_delete)
    next
      case False
      note hit = cache_get_hit [OF True Some False]
      show ?thesis
        using ordered_access [OF assms] hit by simp
    qed
  qed
qed

lemma ordered_clear: "ordered_inv (cache_clear s now) accs"
  by (simp add: ordered_inv_def byLastAccess_def cache_clear_def Let_def)

lemma ordered_cleanupLoop:
  "ordered_inv (snd acc) accs \<Longrightarrow> ordered_inv (snd (cleanupLoop now es acc)) accs"
  by (induction now es acc rule: cleanupLoop.induct) (simp_all add: ordered_delete)

lemma ordered_cleanup: "ordered_inv s accs \<Longrightarrow> ordered_inv (snd (cleanup s now)) accs"
  by (simp add: cleanup_def ordered_cleanupLoop)

lemma ordered_apply_op:
  "ordered_inv s accs \<Longrightarrow> ordered_inv (apply_op s x) (accs @ accessed s x)"
  by (cases x) (simp_all add: ordered_get ordered_set ordered_delete ordered_clear
      ordered_cleanup del: accessed.simps(1,2))

lemma ordered_run:
  "ordered_inv s accs \<Longrightarrow> ordered_inv (run s xs) (accs @ access_log s xs)"
proof (induction xs arbitrary: s accs)
  case Nil
  then show ?case by simp
next
  case (Cons x xs)
  from Cons.IH [OF ordered_apply_op [OF Cons.prems]] show ?case by simp
qed

lemma maxSize_cleanupLoop:
  "maxSize (snd (cleanupLoop now es acc)) = maxSize (snd acc)"
  by (induction now es acc rule: cleanupLoop.induct) simp_all

lemma maxSize_apply_op [simp]: "maxSize (apply_op s x) = maxSize s"
  by (cases x) (simp_all add: cache_clear_def Let_def cleanup_def maxSize_cleanupLoop)

lemma maxSize_run [simp]: "maxSize (run s xs) = maxSize s"
  by (induction xs arbitrary: s) simp_all

text \<open>
  The size bound. A set on a full store evicts one entry before it stores one; on an
  empty store there is nothing to evict, so a store whose \<open>maxSize\<close> is below 1 still
  takes one entry. The bound that every operation keeps is \<open>max 1 maxSize\<close>.
\<close>

lemma size_delete:
  "int (length (cache s)) \<le> max 1 (maxSize s) \<Longrightarrow>
     int (length (cache (snd (cache_delete s now k)))) \<le> max 1 (maxSize s)"
  using length_delete_le [of k "cache s"] by simp

lemma size_cleanupLoop:
  "int (length (cache (snd acc))) \<le> max 1 (maxSize (snd acc)) \<Longrightarrow>
     int (length (cache (snd (cleanupLoop now es acc)))) \<le> max 1 (maxSize (snd acc))"
proof (induction now es acc rule: cleanupLoop.induct)
  case (1 now acc)
  then show ?case by simp
next
  case (2 now k item es cleaned s)
  then show ?case using size_delete [of s now k] by simp
qed

lemma size_set:
  assumes inv: "ordered_inv s accs"
    and le: "int (length (cache s)) \<le> max 1 (maxSize s)"
  shows "int (length (cache (snd (cache_set s now k v t)))) \<le> max 1 (maxSize s)"
proof (cases "enabled s")
  case False
  then show ?thesis using le by (simp add: cache_set_disabled)
next
  case True
  note st = cache_set_enabled [OF True, of now k v t]
  show ?thesis
  proof (cases "k \<in> fst ` set (cache s)")
    case present: True
    then have "makeRoom s k = s" by (simp add: makeRoom_def)
    then show ?thesis using st le present by (simp add: length_update_present)
  next
    case absent: False
    show ?thesis
    proof (cases "int (length (cache s)) \<ge> maxSize s")
      case False
      then have "makeRoom s k = s" by (simp add: makeRoom_def)
      then show ?thesis using st False absent by (simp add: length_update_absent)
    next
      case full: True
      show ?thesis
      proof (cases "cache s")
        case Nil
        then have "accessOrder s = []"
          using inv by (simp add: ordered_inv_def byLastAccess_def)
        then have "makeRoom s k = s"
          by (simp add: makeRoom_def evictLRU_Nil)
        then show ?thesis using st Nil by simp
      next
        case (Cons p ps)
        then have "fst p \<in> set (accessOrder s)"
          using inv by (auto simp: ordered_inv_def byLastAccess_set)
        then obtain h rest where ao: "accessOrder s = h # rest"
          by (cases "accessOrder s") auto
        have hin: "h \<in> fst ` set (cache s)"
          using inv ao by (metis ordered_inv_def byLastAccess_set IntD1 list.set_intros(1))
        have dk: "distinct (map fst (cache s))" using inv by (simp add: ordered_inv_def)
        have mr: "cache (makeRoom s k) = AList.delete h (cache s)"
          using full absent evictLRU_Cons [OF ao] by (simp add: makeRoom_def)
        have "k \<notin> fst ` set (AList.delete h (cache s))"
          using absent by (simp add: keys_delete)
        then have "length (cache (snd (cache_set s now k v t)))
                   = length (AList.delete h (cache s)) + 1"
          using st mr by (simp add: length_update_absent)
        then show ?thesis
          using length_delete_present [OF dk hin] le by simp
      qed
    qed
  qed
qed

lemma size_get:
  assumes le: "int (length (cache s)) \<le> max 1 (maxSize s)"
  shows "int (length (cache (snd (cache_get s now k)))) \<le> max 1 (maxSize s)"
proof (cases "enabled s")
  case False
  then show ?thesis using le by (simp add: cache_get_def)
next
  case True
  show ?thesis
  proof (cases "map_of (cache s) k")
    case None
    then show ?thesis using le True by (simp add: cache_get_def countMiss_def)
  next
    case (Some item)
    show ?thesis
    proof (cases "isExpired item now")
      case exp: True
      show ?thesis
        using size_delete [OF le, of now k]
        by (simp add: cache_get_expired [OF True Some exp] countMiss_def)
    next
      case False
      show ?thesis
        using cache_get_hit [OF True Some False] le map_of_present [OF Some]
        by (simp add: length_update_present)
    qed
  qed
qed

lemma size_apply_op:
  assumes "ordered_inv s accs" "int (length (cache s)) \<le> max 1 (maxSize s)"
  shows "int (length (cache (apply_op s x))) \<le> max 1 (maxSize s)"
proof (cases x)
  case (Get now k)
  then show ?thesis using size_get [OF assms(2)] by simp
next
  case (Set now k v t)
  then show ?thesis using size_set [OF assms] by simp
next
  case (Delete now k)
  then show ?thesis using size_delete [OF assms(2)] by simp
next
  case (Clear now)
  then show ?thesis by (simp add: cache_clear_def Let_def)
next
  case (Cleanup now)
  then show ?thesis
    using size_cleanupLoop [of "(0, s)" now "cache s"] assms(2) by (simp add: cleanup_def)
qed

lemma size_run:
  "ordered_inv s accs \<Longrightarrow> int (length (cache s)) \<le> max 1 (maxSize s) \<Longrightarrow>
     int (length (cache (run s xs))) \<le> max 1 (maxSize s)"
proof (induction xs arbitrary: s accs)
  case Nil
  then show ?case by simp
next
  case (Cons x xs)
  have "int (length (cache (run (apply_op s x) xs))) \<le> max 1 (maxSize (apply_op s x))"
    using Cons.IH [OF ordered_apply_op [OF Cons.prems(1)]] size_apply_op [OF Cons.prems]
    by simp
  then show ?case by simp
qed

lemma ordered_empty: "cache s = [] \<Longrightarrow> accessOrder s = [] \<Longrightarrow> ordered_inv s []"
  by (simp add: ordered_inv_def byLastAccess_def)

subsection \<open>The invariant of every run\<close>

text \<open>
  C3, as the code has it. For every sequence of get, set, delete, clear and cleanup
  operations applied to an initially empty store, after the sequence (so after each
  operation of it) the access order contains exactly the keys of the entry map, each
  exactly once, ordered from least to most recently accessed: it is the list of the
  stored keys in the order of their last access in the run. The number of stored
  entries is at most \<open>maxSize\<close> when \<open>maxSize\<close> is at least 1, and at most 1 when
  \<open>maxSize\<close> is below 1.
\<close>

theorem lru_invariant:
  assumes "cache s0 = []" "accessOrder s0 = []"
  shows "int (length (cache (run s0 ops))) \<le> max 1 (maxSize s0)
       \<and> distinct (map fst (cache (run s0 ops)))
       \<and> distinct (accessOrder (run s0 ops))
       \<and> set (accessOrder (run s0 ops)) = fst ` set (cache (run s0 ops))
       \<and> accessOrder (run s0 ops) = byLastAccess (run s0 ops) (access_log s0 ops)"
proof -
  have e: "ordered_inv s0 []"
    using assms by (simp add: ordered_empty)
  have o: "ordered_inv (run s0 ops) (access_log s0 ops)"
    using ordered_run [OF e, of ops] by simp
  have sz: "int (length (cache (run s0 ops))) \<le> max 1 (maxSize s0)"
    using size_run [OF e, of ops] assms(1) by simp
  have st: "set (accessOrder (run s0 ops)) = fst ` set (cache (run s0 ops))"
    using o by (auto simp: ordered_inv_def byLastAccess_set)
  show ?thesis
    using o sz st by (simp add: ordered_inv_def byLastAccess_distinct)
qed

theorem lru_invariant_witness:
  "cache emptyStore = [] \<and> accessOrder emptyStore = []
   \<and> int (length (cache (run emptyStore [Set 0 ''k1'' ''a'' None, Set 1 ''k2'' ''b'' None,
        Get 2 ''k1'', Set 3 ''k3'' ''c'' None, Cleanup 4, Delete 5 ''k1'']))) \<le> 2
   \<and> accessOrder (run emptyStore [Set 0 ''k1'' ''a'' None, Set 1 ''k2'' ''b'' None,
        Get 2 ''k1'', Set 3 ''k3'' ''c'' None, Cleanup 4, Delete 5 ''k1''])
     = byLastAccess (run emptyStore [Set 0 ''k1'' ''a'' None, Set 1 ''k2'' ''b'' None,
        Get 2 ''k1'', Set 3 ''k3'' ''c'' None, Cleanup 4, Delete 5 ''k1''])
         (access_log emptyStore [Set 0 ''k1'' ''a'' None, Set 1 ''k2'' ''b'' None,
        Get 2 ''k1'', Set 3 ''k3'' ''c'' None, Cleanup 4, Delete 5 ''k1''])"
proof -
  have h: "cache emptyStore = []" "accessOrder emptyStore = []"
    by (simp_all add: emptyStore_def)
  have m: "max 1 (maxSize emptyStore) = 2"
    by (simp add: emptyStore_def)
  show ?thesis
    using h lru_invariant [OF h, of "[Set 0 ''k1'' ''a'' None, Set 1 ''k2'' ''b'' None,
        Get 2 ''k1'', Set 3 ''k3'' ''c'' None, Cleanup 4, Delete 5 ''k1'']"]
    by (simp only: m simp_thms)
qed

text \<open>
  With \<open>maxSize = 0\<close> the bound by \<open>maxSize\<close> fails: \<open>evictLRU\<close> returns at once on
  an empty access order, and the set stores its entry.
\<close>

theorem zero_capacity_counterexample:
  "enabled zeroCapacityStore \<and> cache zeroCapacityStore = [] \<and> accessOrder zeroCapacityStore = []
   \<and> int (length (cache (run zeroCapacityStore [Set 0 ''k'' ''v'' None]))) > maxSize zeroCapacityStore"
  by (simp add: zeroCapacityStore_def newCacheManager_def initialManager_def
      exampleConfig_def enabledOptions_def cache_defs Let_def)

section \<open>Budget status\<close>

lemma foldl_cost: "foldl (\<lambda>sum r. sum + cost r) a rs = a + sum_list (map cost rs)"
  by (induction rs arbitrary: a) simp_all

lemma getTotalCost_sum: "getTotalCost tr = sum_list (map cost (callHistory tr))"
  by (simp add: getTotalCost_def foldl_cost)

lemma checkBudget_frame: "snd (checkBudget tr) = tr"
  by (simp add: checkBudget_def Let_def)

lemma checkBudgetTimes_frame: "checkBudgetTimes n tr = tr"
  by (induction n arbitrary: tr) (simp_all add: checkBudget_frame)

lemma recordCall_total:
  "getTotalCost (snd (recordCall cfg tr now inTok outTok mo rid)) =
     getTotalCost tr +
       (case calculateSingleCallCost cfg inTok outTok
               (case mo of None \<Rightarrow> DEFAULT_MODEL cfg | Some x \<Rightarrow> x) of
          None \<Rightarrow> 0 | Some c \<Rightarrow> c)"
  by (simp add: recordCall_def Let_def checkBudget_frame getTotalCost_sum split: option.splits)

text \<open>
  C7. \<open>checkBudget()\<close> returns \<open>currentCost\<close> equal to the sum of the cost fields of
  the recorded calls, \<open>isOverBudget\<close> exactly when \<open>currentCost \<ge> budgetLimit\<close> and
  \<open>isNearLimit\<close> exactly when \<open>currentCost \<ge> budgetLimit \<times> warnThreshold\<close>; it leaves
  the tracker as it was, so any number of calls with no \<open>recordCall\<close> between them
  changes neither \<open>currentCost\<close> nor any other state. Each cost enters the ledger once,
  when \<open>recordCall\<close> computes it: the total after a \<open>recordCall\<close> is the total before
  plus the cost of that call (nothing when the price lookup throws).
\<close>

theorem checkBudget_reports_ledger:
  "currentCost (fst (checkBudget tr)) = sum_list (map cost (callHistory tr))
   \<and> isOverBudget (fst (checkBudget tr)) = (currentCost (fst (checkBudget tr)) \<ge> budgetLimit tr)
   \<and> isNearLimit (fst (checkBudget tr))
       = (currentCost (fst (checkBudget tr)) \<ge> budgetLimit tr * warnThreshold tr)
   \<and> snd (checkBudget tr) = tr
   \<and> checkBudgetTimes n tr = tr
   \<and> currentCost (fst (checkBudget (checkBudgetTimes n tr))) = currentCost (fst (checkBudget tr))
   \<and> getTotalCost (snd (recordCall cfg tr now inTok outTok mo rid)) =
       getTotalCost tr +
         (case calculateSingleCallCost cfg inTok outTok
                 (case mo of None \<Rightarrow> DEFAULT_MODEL cfg | Some x \<Rightarrow> x) of
            None \<Rightarrow> 0 | Some c \<Rightarrow> c)"
proof -
  have c: "currentCost (fst (checkBudget tr)) = sum_list (map cost (callHistory tr))"
    by (simp add: checkBudget_def Let_def getTotalCost_sum)
  have o: "isOverBudget (fst (checkBudget tr)) = (currentCost (fst (checkBudget tr)) \<ge> budgetLimit tr)"
    by (simp add: checkBudget_def Let_def)
  have n: "isNearLimit (fst (checkBudget tr))
       = (currentCost (fst (checkBudget tr)) \<ge> budgetLimit tr * warnThreshold tr)"
    by (simp add: checkBudget_def Let_def)
  show ?thesis
    using c o n recordCall_total [of cfg tr now inTok outTok mo rid]
    by (simp only: checkBudget_frame checkBudgetTimes_frame simp_thms)
qed

section \<open>Conversation history\<close>

lemma alternating_append_round:
  "alternating h \<Longrightarrow> msg_role u = User \<Longrightarrow> msg_role a = Assistant \<Longrightarrow> alternating (h @ [u, a])"
  by (induction h rule: alternating.induct) simp_all

lemma alternating_even: "alternating h \<Longrightarrow> even (length h)"
  by (induction h rule: alternating.induct) simp_all

lemma butlast_round: "butlast (xs @ [a, b]) = xs @ [a]"
  by (simp add: butlast_append)

lemma chat_history:
  "conversationHistory (snd (chat c create now later userInput opts)) =
     (case fst (chat c create now later userInput opts) of
        Reply text usg m sr \<Rightarrow>
          conversationHistory c @
            [\<lparr>msg_role = User, msg_content = userInput, msg_timestamp = now\<rparr>,
             \<lparr>msg_role = Assistant, msg_content = text, msg_timestamp = later\<rparr>]
      | Failure NoText \<Rightarrow>
          conversationHistory c @
            [\<lparr>msg_role = User, msg_content = userInput, msg_timestamp = now\<rparr>]
      | Failure NoUsage \<Rightarrow>
          conversationHistory c @
            [\<lparr>msg_role = User, msg_content = userInput, msg_timestamp = now\<rparr>]
      | _ \<Rightarrow> conversationHistory c)"
  by (simp add: chat_def Let_def addMessage_def addMessageUndefined_def popMessage_def
      butlast_round split: remote_result.splits list.splits option.splits)

lemma chat_remote_error:
  "fst (chat c (\<lambda>p. RemoteError msg) now later userInput opts) = Failure (UpstreamError msg)
   \<and> conversationHistory (snd (chat c (\<lambda>p. RemoteError msg) now later userInput opts))
       = conversationHistory c"
  by (simp add: chat_def Let_def addMessage_def popMessage_def)

text \<open>
  What holds of every call: when the remote call itself throws, or the response has no
  content block, the user message is removed again, and a successful chat adds one
  round. So the history stays alternating as long as every response that arrives
  carries a text in its first block and its usage figures.
\<close>

lemma chat_complete_alternating:
  assumes "alternating (conversationHistory c)" "\<And>p. complete (create p)"
  shows "alternating (conversationHistory (snd (chat c create now later userInput opts)))"
proof -
  let ?r = "fst (chat c create now later userInput opts)"
  have "complete (create (apiParamsOf (addMessage c now User userInput) opts))"
    by (rule assms(2))
  then have "?r \<noteq> Failure NoText \<and> ?r \<noteq> Failure NoUsage"
    by (auto simp: chat_def Let_def complete_def
        split: remote_result.splits list.splits option.splits)
  then show ?thesis
    using assms(1)
    by (simp add: chat_history alternating_append_round split: Result.splits error.splits)
qed

lemma chats_complete_alternating:
  "alternating (conversationHistory c) \<Longrightarrow> (\<And>x p. x \<in> set calls \<Longrightarrow> complete (cc_create x p))
     \<Longrightarrow> alternating (conversationHistory (chats c calls))"
  by (induction calls arbitrary: c) (simp_all add: chat_complete_alternating)

text \<open>
  C6 claims that, starting from an empty history, after any sequence of \<open>chat\<close> calls
  each of which succeeds or fails, the history alternates user and assistant messages
  starting with a user message and has even length, a failed call leaving the history
  as long as it was. The code does not do this for a response whose first content
  block has no text, nor for one without usage figures: the assistant message is pushed
  before the exception, the single \<open>pop()\<close> of the \<open>catch\<close> block (commented as
  removing the failed user message) removes the assistant message, and the user message
  stays. Here the chat \<open>hi\<close> on the empty history returns a failure and leaves a history
  of length 1 that holds the user message alone.
\<close>

theorem failed_chat_keeps_user_message:
  "conversationHistory exampleConversation = []
   \<and> fst (chat exampleConversation (\<lambda>p. RemoteOk noTextResponse) 1 2 ''hi'' exampleOptions)
       = Failure NoText
   \<and> conversationHistory (chats exampleConversation [hiCall noTextResponse])
       = [\<lparr>msg_role = User, msg_content = ''hi'', msg_timestamp = 1\<rparr>]
   \<and> \<not> alternating (conversationHistory (chats exampleConversation [hiCall noTextResponse]))
   \<and> \<not> even (length (conversationHistory (chats exampleConversation [hiCall noTextResponse])))
   \<and> fst (chat exampleConversation (\<lambda>p. RemoteOk noUsageResponse) 1 2 ''hi'' exampleOptions)
       = Failure NoUsage
   \<and> conversationHistory (chats exampleConversation [hiCall noUsageResponse])
       = [\<lparr>msg_role = User, msg_content = ''hi'', msg_timestamp = 1\<rparr>]
   \<and> \<not> alternating (conversationHistory (chats exampleConversation [hiCall noUsageResponse]))"
  by (simp add: chat_def Let_def addMessage_def addMessageUndefined_def popMessage_def
      hiCall_def noTextResponse_def noUsageResponse_def exampleConversation_def)

section \<open>The request pipeline\<close>

subsection \<open>The budget gate\<close>

lemma overBudgetTracker_over: "isOverBudget (fst (checkBudget overBudgetTracker))"
  by (simp add: overBudgetTracker_def recordCall_def calculateSingleCallCost_def
      getModelPrice_def exampleConfig_def newTracker_def checkBudget_def getTotalCost_def Let_def)

text \<open>
  C8. Whenever \<open>checkBudget()\<close> reports \<open>isOverBudget\<close>, \<open>sendMessage\<close> returns the
  failure result carrying the budget error and the assistant is exactly as before: the
  conversation history, the cache, the budget ledger and the list of requests sent to
  the remote model are unchanged, whatever the remote model would have answered.
\<close>

theorem over_budget_denied:
  "isOverBudget (fst (checkBudget (tokenTracker a))) \<Longrightarrow>
     sendMessage cfg digest create now later a userInput opts = (Some (Failure BudgetExceeded), a)"
  by (simp add: sendMessage_def Let_def)

theorem over_budget_denied_witness:
  "isOverBudget (fst (checkBudget (tokenTracker (assistantWith overBudgetTracker ''k''))))
   \<and> sendMessage exampleConfig exampleDigest remoteDown 1 2
        (assistantWith overBudgetTracker ''k'') ''hi'' exampleOptions
      = (Some (Failure BudgetExceeded), assistantWith overBudgetTracker ''k'')"
proof -
  have h: "isOverBudget (fst (checkBudget (tokenTracker (assistantWith overBudgetTracker ''k''))))"
    by (simp add: assistantWith_def overBudgetTracker_over)
  show ?thesis
    using h over_budget_denied [OF h] by simp
qed

subsection \<open>Cache hits\<close>

text \<open>
  C1, as the code has it. The budget gate comes first in \<open>sendMessage\<close>, so the cached
  answer is served when the tracker is not over budget. Then, for a request whose key
  has an entry in the enabled cache that has not expired and whose text is not empty,
  and with \<open>disableCache\<close> not set, \<open>sendMessage\<close> returns success with the cached
  content, \<open>fromCache = true\<close> and no usage figures, appends the user turn and the
  assistant turn to the history, leaves the tracker unchanged and sends nothing to the
  remote model.
\<close>

theorem cache_hit_served:
  assumes nob: "\<not> isOverBudget (fst (checkBudget (tokenTracker a)))"
    and en: "enabled (cacheManager a)"
    and look: "map_of (cache (cacheManager a)) (requestKey cfg digest (conversation a) userInput)
               = Some item"
    and fresh: "\<not> isExpired item now"
    and ne: "ci_value item \<noteq> []"
    and dc: "\<not> disableCache opts"
  shows "fst (sendMessage cfg digest create now later a userInput opts)
           = Some (FromCache (ci_value item))
       \<and> success (FromCache (ci_value item))
       \<and> content (FromCache (ci_value item)) = Some (ci_value item)
       \<and> fromCache (FromCache (ci_value item))
       \<and> usage (FromCache (ci_value item)) = None
       \<and> conversationHistory (conversation (snd (sendMessage cfg digest create now later a userInput opts)))
           = conversationHistory (conversation a) @
               [\<lparr>msg_role = User, msg_content = userInput, msg_timestamp = now\<rparr>,
                \<lparr>msg_role = Assistant, msg_content = ci_value item, msg_timestamp = now\<rparr>]
       \<and> tokenTracker (snd (sendMessage cfg digest create now later a userInput opts)) = tokenTracker a
       \<and> client (conversation (snd (sendMessage cfg digest create now later a userInput opts)))
           = client (conversation a)"
proof -
  note hit = cache_get_hit [OF en look fresh]
  have "sendMessage cfg digest create now later a userInput opts =
          (Some (FromCache (ci_value item)),
           a\<lparr>cacheManager := snd (cache_get (cacheManager a) now
                                     (requestKey cfg digest (conversation a) userInput)),
             conversation := addMessage (addMessage (conversation a) now User userInput)
                               now Assistant (ci_value item)\<rparr>)"
    using nob hit ne dc by (simp add: sendMessage_def Let_def)
  then show ?thesis
    by (simp add: addMessage_def)
qed

theorem cache_hit_served_witness:
  "fst (sendMessage exampleConfig exampleDigest remoteDown 1 2
          (assistantWith newTracker (hiKey exampleDigest)) ''hi'' exampleOptions)
     = Some (FromCache ''cached answer'')
   \<and> tokenTracker (snd (sendMessage exampleConfig exampleDigest remoteDown 1 2
          (assistantWith newTracker (hiKey exampleDigest)) ''hi'' exampleOptions)) = newTracker"
proof -
  define k where "k = hiKey exampleDigest"
  have h: "\<not> isOverBudget (fst (checkBudget (tokenTracker (assistantWith newTracker k))))"
      "enabled (cacheManager (assistantWith newTracker k))"
      "map_of (cache (cacheManager (assistantWith newTracker k)))
         (requestKey exampleConfig exampleDigest (conversation (assistantWith newTracker k)) ''hi'')
       = Some (cachedItem k)"
      "\<not> isExpired (cachedItem k) 1"
      "ci_value (cachedItem k) \<noteq> []"
      "\<not> disableCache exampleOptions"
    by (simp_all add: assistantWith_def newTracker_def checkBudget_def getTotalCost_def Let_def
        storeWith_def emptyStore_def k_def hiKey_def cachedItem_def isExpired_def
        exampleOptions_def)
  show ?thesis
    using cache_hit_served [OF h, of remoteDown 2]
    by (simp add: k_def cachedItem_def assistantWith_def)
qed

text \<open>
  Over budget, the same request is denied although its key has a fresh entry: with
  the tracker of Scenario B and an unexpired answer stored under the derived key, the
  result is the budget failure and nothing changes. This holds for every digest
  function and every behaviour of the remote model.
\<close>

theorem cache_hit_over_budget_counterexample:
  "\<forall>digest create.
     requestKey exampleConfig digest
       (conversation (assistantWith overBudgetTracker (hiKey digest))) ''hi'' = hiKey digest
     \<and> enabled (cacheManager (assistantWith overBudgetTracker (hiKey digest)))
     \<and> map_of (cache (cacheManager (assistantWith overBudgetTracker (hiKey digest))))
          (hiKey digest) = Some (cachedItem (hiKey digest))
     \<and> \<not> isExpired (cachedItem (hiKey digest)) 1
     \<and> isOverBudget (fst (checkBudget (tokenTracker
          (assistantWith overBudgetTracker (hiKey digest)))))
     \<and> sendMessage exampleConfig digest create 1 2
          (assistantWith overBudgetTracker (hiKey digest)) ''hi'' exampleOptions
        = (Some (Failure BudgetExceeded), assistantWith overBudgetTracker (hiKey digest))"
proof (intro allI)
  fix digest :: "KeyData \<Rightarrow> string" and create :: "ApiParams \<Rightarrow> remote_result"
  define k where "k = hiKey digest"
  have o: "isOverBudget (fst (checkBudget (tokenTracker (assistantWith overBudgetTracker k))))"
    by (simp add: assistantWith_def overBudgetTracker_over)
  have s: "sendMessage exampleConfig digest create 1 2 (assistantWith overBudgetTracker k)
             ''hi'' exampleOptions
           = (Some (Failure BudgetExceeded), assistantWith overBudgetTracker k)"
    using o by (simp add: sendMessage_def Let_def)
  have r: "requestKey exampleConfig digest
             (conversation (assistantWith overBudgetTracker k)) ''hi'' = k"
      "enabled (cacheManager (assistantWith overBudgetTracker k))"
      "map_of (cache (cacheManager (assistantWith overBudgetTracker k))) k
       = Some (cachedItem k)"
      "\<not> isExpired (cachedItem k) 1"
    by (simp_all add: assistantWith_def storeWith_def emptyStore_def k_def hiKey_def
        cachedItem_def isExpired_def)
  show "requestKey exampleConfig digest
       (conversation (assistantWith overBudgetTracker (hiKey digest))) ''hi'' = hiKey digest
     \<and> enabled (cacheManager (assistantWith overBudgetTracker (hiKey digest)))
     \<and> map_of (cache (cacheManager (assistantWith overBudgetTracker (hiKey digest))))
          (hiKey digest) = Some (cachedItem (hiKey digest))
     \<and> \<not> isExpired (cachedItem (hiKey digest)) 1
     \<and> isOverBudget (fst (checkBudget (tokenTracker
          (assistantWith overBudgetTracker (hiKey digest)))))
     \<and> sendMessage exampleConfig digest create 1 2
          (assistantWith overBudgetTracker (hiKey digest)) ''hi'' exampleOptions
        = (Some (Failure BudgetExceeded), assistantWith overBudgetTracker (hiKey digest))"
    using r s o unfolding k_def by (simp only: simp_thms)
qed

subsection \<open>The cache key\<close>

lemma requestKey_document:
  "requestKey cfg digest c msg = take 16 (digest (keyDataOf cfg msg (requestOptions c)))"
  by (simp add: requestKey_def generateKey_def)

lemma requestOptions_cong:
  "model c = model c' \<Longrightarrow> temperature c = temperature c' \<Longrightarrow> systemPrompt c = systemPrompt c'
     \<Longrightarrow> requestOptions c = requestOptions c'"
  by (simp add: requestOptions_def)

text \<open>
  The key is the first 16 characters of the digest of the key document, so identical
  message, model, temperature and system prompt give the identical key; and, for
  non-empty model names, two requests have the same key document exactly when they
  agree on these four.
\<close>

lemma requestKey_determined:
  "model c = model c' \<Longrightarrow> temperature c = temperature c' \<Longrightarrow> systemPrompt c = systemPrompt c'
     \<Longrightarrow> requestKey cfg digest c msg = requestKey cfg digest c' msg"
  using requestOptions_cong [of c c'] by (simp add: requestKey_def)

lemma keyDataOf_request_eq:
  "model c \<noteq> [] \<Longrightarrow> model c' \<noteq> [] \<Longrightarrow>
     (keyDataOf cfg msg (requestOptions c) = keyDataOf cfg msg' (requestOptions c'))
       = (msg = msg' \<and> model c = model c' \<and> temperature c = temperature c'
          \<and> systemPrompt c = systemPrompt c')"
  by (auto simp: keyDataOf_def requestOptions_def strOr_def)

text \<open>
  C2 claims that the key is a function of the message text, the model, \<open>maxTokens\<close>,
  the temperature and the system prompt, and that changing any one of the five, also
  \<open>maxTokens\<close> alone, changes the key. \<open>generateKey\<close> does put \<open>maxTokens\<close> into the
  key document, but \<open>sendMessage\<close> calls it without one, so the document always holds
  the configured default. Two conversations that differ only in \<open>maxTokens\<close> (1024 and
  2048) send different requests to the remote model and derive the same key for the
  message \<open>hi\<close>, under every digest function; an answer cached under that key by the
  first is served to the second.
\<close>

theorem requestKey_ignores_maxTokens:
  "maxTokens exampleConversation \<noteq> maxTokens (exampleConversation\<lparr>maxTokens := 2048\<rparr>)
   \<and> ap_max_tokens (apiParamsOf exampleConversation exampleOptions) = 1024
   \<and> ap_max_tokens (apiParamsOf (exampleConversation\<lparr>maxTokens := 2048\<rparr>) exampleOptions)
       = 2048
   \<and> (\<forall>digest. requestKey exampleConfig digest exampleConversation ''hi''
        = requestKey exampleConfig digest (exampleConversation\<lparr>maxTokens := 2048\<rparr>) ''hi'')
   \<and> kd_maxTokens (keyDataOf exampleConfig ''hi''
         (requestOptions (exampleConversation\<lparr>maxTokens := 2048\<rparr>))) = 1024
   \<and> kd_maxTokens (keyDataOf exampleConfig ''hi''
         ((requestOptions exampleConversation)\<lparr>k_maxTokens := Some 2048\<rparr>)) = 2048
   \<and> (\<forall>digest create.
         fst (sendMessage exampleConfig digest create 1 2
                ((assistantWith newTracker (hiKey digest))
                   \<lparr>conversation := exampleConversation\<lparr>maxTokens := 2048\<rparr>\<rparr>)
                ''hi'' exampleOptions)
         = Some (FromCache ''cached answer''))"
proof -
  have k: "requestKey exampleConfig digest (exampleConversation\<lparr>maxTokens := 2048\<rparr>) ''hi''
           = hiKey digest" for digest
    by (simp add: hiKey_def requestKey_def requestOptions_def)
  have served: "fst (sendMessage exampleConfig digest create 1 2
                ((assistantWith newTracker (hiKey digest))
                   \<lparr>conversation := exampleConversation\<lparr>maxTokens := 2048\<rparr>\<rparr>)
                ''hi'' exampleOptions)
         = Some (FromCache ''cached answer'')" for digest create
  proof -
    have e: "enabled (storeWith (hiKey digest))"
      and l: "map_of (cache (storeWith (hiKey digest))) (hiKey digest)
              = Some (cachedItem (hiKey digest))"
      and f: "\<not> isExpired (cachedItem (hiKey digest)) 1"
      by (simp_all add: storeWith_def emptyStore_def cachedItem_def isExpired_def)
    have "fst (cache_get (storeWith (hiKey digest)) 1 (hiKey digest)) = Some ''cached answer''"
      using cache_get_hit [OF e l f] by (simp add: cachedItem_def)
    then show ?thesis
      by (simp add: sendMessage_def Let_def assistantWith_def k newTracker_def checkBudget_def
          getTotalCost_def exampleOptions_def)
  qed
  have differ: "maxTokens exampleConversation
                \<noteq> maxTokens (exampleConversation\<lparr>maxTokens := 2048\<rparr>)"
    by (simp add: exampleConversation_def)
  have sent1: "ap_max_tokens (apiParamsOf exampleConversation exampleOptions) = 1024"
    by (simp add: apiParamsOf_def natOr_def exampleConversation_def exampleOptions_def)
  have sent2: "ap_max_tokens (apiParamsOf (exampleConversation\<lparr>maxTokens := 2048\<rparr>)
                 exampleOptions) = 2048"
    by (simp add: apiParamsOf_def natOr_def exampleOptions_def)
  have same: "\<forall>digest. requestKey exampleConfig digest exampleConversation ''hi''
        = requestKey exampleConfig digest (exampleConversation\<lparr>maxTokens := 2048\<rparr>) ''hi''"
    by (simp add: k hiKey_def)
  have doc1: "kd_maxTokens (keyDataOf exampleConfig ''hi''
         (requestOptions (exampleConversation\<lparr>maxTokens := 2048\<rparr>))) = 1024"
    by (simp add: keyDataOf_def requestOptions_def natOr_def exampleConfig_def)
  have doc2: "kd_maxTokens (keyDataOf exampleConfig ''hi''
         ((requestOptions exampleConversation)\<lparr>k_maxTokens := Some 2048\<rparr>)) = 2048"
    by (simp add: keyDataOf_def requestOptions_def natOr_def)
  from differ sent1 sent2 same doc1 doc2 served show ?thesis
    by blast
qed

section \<open>Persistence round trip\<close>

lemma update_absent_append: "k \<notin> fst ` set al \<Longrightarrow> AList.update k v al = al @ [(k, v)]"
  by (induction al) auto

lemma rebuilt_item:
  "newCacheItem now (ci_key item) (ci_value item) (ttl item)
     \<lparr>createdAt := createdAt item, ci_hits := ci_hits item\<rparr> = item"
  by (cases item) (simp add: newCacheItem_def)

lemma loadLoop_fields [simp]:
  "enabled (loadLoop now items s) = enabled s"
  "stats (loadLoop now items s) = stats s"
  "maxSize (loadLoop now items s) = maxSize s"
  by (induction now items s rule: loadLoop.induct) simp_all

lemma loadLoop_cache:
  "distinct (map ci_key items) \<Longrightarrow> set (map ci_key items) \<inter> fst ` set (cache s) = {} \<Longrightarrow>
     cache (loadLoop now items s) =
       cache s @ map (\<lambda>item. (ci_key item, item)) (filter (keptOnLoad now) items)"
proof (induction now items s rule: loadLoop.induct)
  case (1 now s)
  then show ?case by simp
next
  case (2 now item items s)
  show ?case
  proof (cases "now - createdAt item < ttl item")
    case True
    have absent: "ci_key item \<notin> fst ` set (cache s)"
      using "2.prems"(2) by auto
    let ?s' = "s\<lparr>cache := AList.update (ci_key item)
                           (newCacheItem now (ci_key item) (ci_value item) (ttl item)
                              \<lparr>createdAt := createdAt item, ci_hits := ci_hits item\<rparr>)
                           (cache s),
                accessOrder := accessOrder s @ [ci_key item]\<rparr>"
    have c': "cache ?s' = cache s @ [(ci_key item, item)]"
      using absent by (simp add: rebuilt_item update_absent_append)
    have disj: "set (map ci_key items) \<inter> fst ` set (cache ?s') = {}"
      using "2.prems" unfolding c' by auto
    have "cache (loadLoop now items ?s') =
            cache ?s' @ map (\<lambda>item. (ci_key item, item)) (filter (keptOnLoad now) items)"
      using "2.IH"(1) [OF True _ disj] "2.prems"(1) by simp
    moreover have "keptOnLoad now item"
      using True by (simp add: keptOnLoad_def)
    ultimately show ?thesis
      using True unfolding c' by simp
  next
    case False
    then have "\<not> keptOnLoad now item"
      by (simp add: keptOnLoad_def)
    then show ?thesis
      using "2.IH"(2) [OF False] "2.prems" False by simp
  qed
qed

lemma snapshot_keys: "map ci_key (snap_cache (snapshotOf s now)) = map fst (cache s)"
  by (simp add: snapshotOf_def case_prod_beta)

lemma load_snapshot:
  assumes f: "cacheFile m = Some (snapshotOf old t0)" and d: "distinct (map fst (cache old))"
  shows "cache (snd (load m now)) =
           map (\<lambda>item. (ci_key item, item)) (filter (keptOnLoad now) (snap_cache (snapshotOf old t0)))"
    and "stats (snd (load m now)) = stats old"
    and "enabled (snd (load m now)) = enabled m"
proof -
  have "cache (loadLoop now (snap_cache (snapshotOf old t0)) (m\<lparr>cache := [], accessOrder := []\<rparr>)) =
          cache (m\<lparr>cache := [], accessOrder := []\<rparr>)
          @ map (\<lambda>item. (ci_key item, item)) (filter (keptOnLoad now) (snap_cache (snapshotOf old t0)))"
    by (rule loadLoop_cache) (simp_all add: snapshot_keys d)
  then show "cache (snd (load m now)) =
           map (\<lambda>item. (ci_key item, item)) (filter (keptOnLoad now) (snap_cache (snapshotOf old t0)))"
    by (simp add: load_def f Let_def)
  show "stats (snd (load m now)) = stats old"
    by (simp add: load_def f Let_def snapshotOf_def)
  show "enabled (snd (load m now)) = enabled m"
    by (simp add: load_def f Let_def)
qed

lemma set_saves:
  assumes "enabled s" "persistenceEnabled s" "fsWritable s"
  shows "cacheFile (snd (cache_set s now k v t)) = Some (snapshotOf (snd (cache_set s now k v t)) now)"
  using assms
  by (simp add: cache_set_def Let_def save_def snapshotOf_def updateAccessOrder_def)

lemma distinct_makeRoom:
  "distinct (map fst (cache s)) \<Longrightarrow> distinct (map fst (cache (makeRoom s k)))"
  by (simp add: makeRoom_def evictLRU_def distinct_delete split: list.splits)

lemma set_distinct:
  "distinct (map fst (cache s)) \<Longrightarrow> distinct (map fst (cache (snd (cache_set s now k v t))))"
  by (cases "enabled s")
     (simp_all add: cache_set_enabled cache_set_disabled distinct_update distinct_makeRoom)

lemma keptOnLoad_key [simp]: "keptOnLoad now (item\<lparr>ci_key := k\<rparr>) = keptOnLoad now item"
  by (simp add: keptOnLoad_def)

lemma kept_of_saved:
  "map (\<lambda>item. (ci_key item, item))
       (filter (keptOnLoad now) (map (\<lambda>(k, item). item\<lparr>ci_key := k\<rparr>) al)) =
     map (\<lambda>(k, item). (k, item\<lparr>ci_key := k\<rparr>)) (filter (\<lambda>(k, item). keptOnLoad now item) al)"
  by (induction al) auto

lemma kept_of_snapshot:
  "map (\<lambda>item. (ci_key item, item)) (filter (keptOnLoad now) (snap_cache (snapshotOf s t0))) =
     map (\<lambda>(k, item). (k, item\<lparr>ci_key := k\<rparr>))
       (filter (\<lambda>(k, item). keptOnLoad now item) (cache s))"
  by (simp add: snapshotOf_def kept_of_saved)

lemma restart_load:
  "opt_persist opts \<noteq> Some False \<Longrightarrow>
     restart cfg opts old writable now =
       snd (load (initialManager cfg opts (cacheFile old) writable) now)"
  by (simp add: restart_def newCacheManager_def Let_def initialManager_def)

text \<open>
  C9. After \<open>set(key, value)\<close> at time \<open>t0\<close> on an enabled cache with persistence
  enabled (and a file system that takes the write), a fresh manager that loads the saved
  snapshot at time \<open>t1\<close> answers \<open>get(key)\<close> with the value, provided the age
  \<open>t1 - t0\<close> of the entry is strictly less than its time-to-live. The loaded entries are
  exactly the saved entries whose age at load time is less than their time-to-live, in
  the saved order: an entry of age at least its time-to-live is dropped. The saved
  stats are restored.
\<close>

theorem persistence_round_trip:
  assumes en: "enabled s" and pe: "persistenceEnabled s" and wr: "fsWritable s"
    and d: "distinct (map fst (cache s))"
    and po: "opt_persist opts \<noteq> Some False"
    and en': "enabled (restart cfg opts (snd (cache_set s t0 k v t)) writable t1)"
  shows "(t1 - t0 < numOr t (defaultTTL s) \<longrightarrow>
            fst (cache_get (restart cfg opts (snd (cache_set s t0 k v t)) writable t1) t1 k) = Some v)
       \<and> cache (restart cfg opts (snd (cache_set s t0 k v t)) writable t1) =
           map (\<lambda>(k', item). (k', item\<lparr>ci_key := k'\<rparr>))
             (filter (\<lambda>(k', item). keptOnLoad t1 item) (cache (snd (cache_set s t0 k v t))))
       \<and> stats (restart cfg opts (snd (cache_set s t0 k v t)) writable t1)
           = stats (snd (cache_set s t0 k v t))"
proof -
  define s1 where "s1 = snd (cache_set s t0 k v t)"
  define m1 where "m1 = restart cfg opts s1 writable t1"
  define item where "item = newCacheItem t0 k v (numOr t (defaultTTL s))"
  have saved: "cacheFile s1 = Some (snapshotOf s1 t0)"
    unfolding s1_def by (rule set_saves [OF en pe wr])
  have d1: "distinct (map fst (cache s1))"
    unfolding s1_def by (rule set_distinct [OF d])
  define m where "m = initialManager cfg opts (cacheFile s1) writable"
  have m: "restart cfg opts s1 writable t1 = snd (load m t1)"
    unfolding m_def by (rule restart_load [OF po])
  have fm: "cacheFile m = Some (snapshotOf s1 t0)"
    using saved by (simp add: m_def initialManager_def)
  have c: "cache m1 =
             map (\<lambda>(k', item). (k', item\<lparr>ci_key := k'\<rparr>))
               (filter (\<lambda>(k', item). keptOnLoad t1 item) (cache s1))"
    unfolding m1_def m load_snapshot(1) [OF fm d1] by (rule kept_of_snapshot)
  have st: "stats m1 = stats s1"
    unfolding m1_def m by (rule load_snapshot(2) [OF fm d1])
  have hit: "fst (cache_get m1 t1 k) = Some v" if age: "t1 - t0 < numOr t (defaultTTL s)"
  proof -
    have "map_of (cache s1) k = Some item"
      using cache_set_enabled [OF en, of t0 k v t]
      by (simp add: s1_def item_def update_conv')
    then have mem: "(k, item) \<in> set (cache s1)"
      by (rule map_of_SomeD)
    have kept: "keptOnLoad t1 item"
      using age by (simp add: keptOnLoad_def item_def newCacheItem_def)
    have same: "item\<lparr>ci_key := k\<rparr> = item"
      by (simp add: item_def newCacheItem_def)
    have "(k, item\<lparr>ci_key := k\<rparr>) \<in> set (cache m1)"
      unfolding c using mem kept by force
    then have mem1: "(k, item) \<in> set (cache m1)"
      by (simp add: same)
    have "map fst (cache m1) = map fst (filter (\<lambda>(k', item). keptOnLoad t1 item) (cache s1))"
      unfolding c by (simp add: case_prod_beta comp_def)
    then have "distinct (map fst (cache m1))"
      using d1 by (simp add: distinct_map_filter)
    then have look: "map_of (cache m1) k = Some item"
      using mem1 by (rule map_of_is_SomeI)
    have nexp: "\<not> isExpired item t1"
      using age by (simp add: isExpired_def item_def newCacheItem_def)
    have e1: "enabled m1"
      using en' by (simp add: m1_def s1_def)
    show ?thesis
      using cache_get_hit [OF e1 look nexp] by (simp add: item_def newCacheItem_def)
  qed
  show ?thesis
    using hit c st unfolding m1_def s1_def by simp
qed

theorem persistence_round_trip_witness:
  "fst (cache_get (restart exampleConfig enabledOptions
                     (snd (cache_set emptyStore 0 ''k'' ''v'' None)) True 5) 5 ''k'') = Some ''v''
   \<and> stats (restart exampleConfig enabledOptions
                     (snd (cache_set emptyStore 0 ''k'' ''v'' None)) True 5)
       = stats (snd (cache_set emptyStore 0 ''k'' ''v'' None))
   \<and> cache (restart exampleConfig enabledOptions
                     (snd (cache_set emptyStore 0 ''k'' ''v'' (Some 10))) True 10) = []"
proof -
  have h: "enabled emptyStore" "persistenceEnabled emptyStore" "fsWritable emptyStore"
      "distinct (map fst (cache emptyStore))" "opt_persist enabledOptions \<noteq> Some False"
    by (simp_all add: emptyStore_def enabledOptions_def)
  have e: "enabled (restart exampleConfig enabledOptions
                     (snd (cache_set emptyStore 0 ''k'' ''v'' None)) True 5)"
    by (simp add: restart_def newCacheManager_def Let_def enabledOptions_def load_def
        initialManager_def split: option.splits)
  have age: "(5::int) - 0 < numOr None (defaultTTL emptyStore)"
    by (simp add: numOr_def emptyStore_def)
  have gone: "cache (restart exampleConfig enabledOptions
                     (snd (cache_set emptyStore 0 ''k'' ''v'' (Some 10))) True 10) = []"
    by (simp add: restart_def newCacheManager_def Let_def enabledOptions_def load_def
        initialManager_def cache_defs emptyStore_def)
  show ?thesis
    using persistence_round_trip [OF h e] age gone by simp
qed

end
